theory Spec2Isabelle
  imports Complex_Main
begin

section \<open>Data model\<close>

text \<open>
  JavaScript numbers are modelled as real numbers: rounding, overflow to infinity and NaN
  inputs are outside the model. The one NaN the code can produce from well-formed input
  (the centroid of an empty landmark list, \<open>0 / 0\<close>) is modelled explicitly.
  \<open>Date.now()\<close> is an integer number of milliseconds.

  The source's field names \<open>x\<close>, \<open>y\<close>, \<open>z\<close> are prefixed, since a record field is a
  constant of the theory: \<open>p_x\<close> for \<open>Point3D.x\<close> (also used for a landmark
  \<open>{x, y, z}\<close>), \<open>pos_x\<close> for \<open>position.x\<close>, \<open>rot_x\<close> for \<open>rotation.x\<close>.
\<close>

datatype error = TypeError

record Point3D =
  p_x :: real
  p_y :: real
  p_z :: real

type_synonym Landmark = Point3D

record Point2D =
  pos_x :: real
  pos_y :: real

record HandState =
  isDetected :: bool
  position :: Point2D
  isPinching :: bool
  openness :: real

record Euler =
  rot_x :: real
  rot_y :: real
  rot_z :: real

text \<open>\<open>xs[i]\<close> on a JavaScript array: \<open>undefined\<close> (here \<open>None\<close>) out of range.\<close>

definition elemAt :: "'a list \<Rightarrow> nat \<Rightarrow> 'a option" where
  "elemAt xs i = (if i < length xs then Some (xs ! i) else None)"

section \<open>Gesture interpreter (HandController.tsx, onResults)\<close>

text \<open>
  \<open>getCentroid\<close>: the mean of the landmarks' x and y. On an empty list the source
  computes \<open>0 / 0\<close>, which is NaN: \<open>None\<close> here.
\<close>

definition getCentroid :: "Landmark list \<Rightarrow> (real \<times> real) option" where
  "getCentroid landmarks =
     (if length landmarks = 0 then None
      else Some (foldl (\<lambda>x p. x + p_x p) 0 landmarks / real (length landmarks),
                 foldl (\<lambda>y p. y + p_y p) 0 landmarks / real (length landmarks)))"

definition hypot :: "real \<Rightarrow> real \<Rightarrow> real" where
  "hypot a b = sqrt (a\<^sup>2 + b\<^sup>2)"

definition PROXIMITY_THRESHOLD :: real where
  "PROXIMITY_THRESHOLD = 0.12"

text \<open>
  \<open>dist < PROXIMITY_THRESHOLD\<close> for the two hands' centroids; a comparison with NaN is
  false.
\<close>

definition handsClose :: "Landmark list \<Rightarrow> Landmark list \<Rightarrow> bool" where
  "handsClose hand1 hand2 =
     (case getCentroid hand1 of
        None \<Rightarrow> False
      | Some c1 \<Rightarrow>
          (case getCentroid hand2 of
             None \<Rightarrow> False
           | Some c2 \<Rightarrow> hypot (fst c1 - fst c2) (snd c1 - snd c2) < PROXIMITY_THRESHOLD))"

text \<open>
  The trigger block of \<open>onResults\<close>: given \<open>now\<close>, the hands of the frame and
  \<open>lastClapTime.current\<close>, the new \<open>lastClapTime.current\<close> and whether \<open>onClap\<close>
  was called.
\<close>

definition proximityTrigger :: "int \<Rightarrow> Landmark list list \<Rightarrow> int \<Rightarrow> int \<times> bool" where
  "proximityTrigger now hands lastClapTime =
     (if length hands = 2 then
        (if handsClose (hands ! 0) (hands ! 1) then
           (if now - lastClapTime > 1000 then (now, True) else (lastClapTime, False))
         else (lastClapTime, False))
      else (lastClapTime, False))"

text \<open>
  \<open>tips.forEach\<close>: the sum of the distances from the wrist to the fingertips, in the
  (x, y) plane. Reading \<open>.x\<close> of a missing landmark raises TypeError (\<open>None\<close>).
\<close>

fun sumTipDist :: "Landmark list \<Rightarrow> Landmark \<Rightarrow> nat list \<Rightarrow> real \<Rightarrow> real option" where
  "sumTipDist hand wrist [] totalDist = Some totalDist"
| "sumTipDist hand wrist (idx # rest) totalDist =
     (case elemAt hand idx of
        None \<Rightarrow> None
      | Some tip \<Rightarrow>
          sumTipDist hand wrist rest
            (totalDist + sqrt ((p_x tip - p_x wrist)\<^sup>2 + (p_y tip - p_y wrist)\<^sup>2)))"

definition tips :: "nat list" where
  "tips = [8, 12, 16, 20]"

definition pinchDistOf :: "Landmark \<Rightarrow> Landmark \<Rightarrow> real" where
  "pinchDistOf thumbTip indexTip =
     sqrt ((p_x thumbTip - p_x indexTip)\<^sup>2 + (p_y thumbTip - p_y indexTip)\<^sup>2)"

definition opennessOf :: "real \<Rightarrow> real" where
  "opennessOf totalDist =
     (let avgDist = totalDist / 4;
          minOpen = 0.15;
          maxOpen = 0.40
      in min (max ((avgDist - minOpen) / (maxOpen - minOpen)) 0) 1)"

text \<open>
  The hand-state block of \<open>onResults\<close> for the first detected hand. Each landmark is
  read in the source's order; a missing one raises TypeError.
\<close>

definition handStateOf :: "Landmark list \<Rightarrow> error + HandState" where
  "handStateOf hand =
     (case elemAt hand 4 of
        None \<Rightarrow> Inl TypeError
      | Some thumbTip \<Rightarrow>
     (case elemAt hand 8 of
        None \<Rightarrow> Inl TypeError
      | Some indexTip \<Rightarrow>
     (let pinchDist = pinchDistOf thumbTip indexTip;
          pinching = pinchDist < 0.05
      in
     (case elemAt hand 9 of
        None \<Rightarrow> Inl TypeError
      | Some palm \<Rightarrow>
     (let targetX = (if pinching then (p_x thumbTip + p_x indexTip) / 2 else p_x palm);
          targetY = (if pinching then (p_y thumbTip + p_y indexTip) / 2 else p_y palm)
      in
     (case elemAt hand 0 of
        None \<Rightarrow> Inl TypeError
      | Some wrist \<Rightarrow>
     (case sumTipDist hand wrist tips 0 of
        None \<Rightarrow> Inl TypeError
      | Some totalDist \<Rightarrow>
          Inr \<lparr> isDetected = True,
                position = \<lparr> pos_x = targetX, pos_y = targetY \<rparr>,
                isPinching = pinching,
                openness = opennessOf totalDist \<rparr>)))))))"

definition noHand :: HandState where
  "noHand = \<lparr> isDetected = False, position = \<lparr> pos_x = 0.5, pos_y = 0.5 \<rparr>,
              isPinching = False, openness = 0 \<rparr>"

text \<open>The state handed to \<open>onHandUpdate\<close>: from the first hand, or the no-detection value.\<close>

definition emittedHandState :: "Landmark list list \<Rightarrow> error + HandState" where
  "emittedHandState hands =
     (if length hands > 0 then handStateOf (hands ! 0) else Inr noHand)"

text \<open>
  One call of \<open>onResults\<close> while mounted: the new \<open>lastClapTime.current\<close>, whether
  \<open>onClap\<close> was called, and the hand state passed to \<open>onHandUpdate\<close> (or the error
  raised after the trigger block ran).
\<close>

definition onResults ::
  "int \<Rightarrow> Landmark list list \<Rightarrow> int \<Rightarrow> int \<times> bool \<times> (error + HandState)" where
  "onResults now hands lastClapTime =
     (let (l, clap) = proximityTrigger now hands lastClapTime
      in (l, clap, emittedHandState hands))"

text \<open>
  A run of frames, each \<open>(now, hands)\<close>: the times at which \<open>onClap\<close> was called,
  starting from \<open>lastClapTime.current = l\<close>.
\<close>

fun clapTimes :: "int \<Rightarrow> (int \<times> Landmark list list) list \<Rightarrow> int list" where
  "clapTimes l [] = []"
| "clapTimes l ((now, hands) # frames) =
     (case onResults now hands l of
        (l', clap, _) \<Rightarrow> (if clap then [now] else []) @ clapTimes l' frames)"

section \<open>Session state (App.tsx)\<close>

datatype ShapeType =
  Sphere | Cube | Heart | Flower | Saturn | Fireworks | Buddha | GeminiGenerated

text \<open>The props of \<open>ParticleSystem\<close> are four fields of the App state.\<close>

record ParticleSystemProps =
  targetPoints :: "Point3D list"
  handState :: HandState
  color :: string
  isExploding :: bool

text \<open>
  The App state: the props above, the shape, and the pending \<open>setTimeout\<close> callbacks of
  \<open>handleClap\<close>, each with its delay in milliseconds and the \<open>shapeType\<close> it closed over.
\<close>

record AppState = ParticleSystemProps +
  shapeType :: ShapeType
  timers :: "(nat \<times> ShapeType) list"

definition initialApp :: AppState where
  "initialApp = \<lparr> targetPoints = [], handState = noHand, color = ''#f43f5e'',
                  isExploding = False, shapeType = Heart, timers = [] \<rparr>"

text \<open>\<open>handleHandUpdate\<close>: the functional update \<open>prev \<Rightarrow> {...state, openness, position}\<close>.\<close>

definition smooth :: "HandState \<Rightarrow> HandState \<Rightarrow> HandState" where
  "smooth prev state =
     state \<lparr> openness := openness prev * 0.7 + openness state * 0.3,
             position := \<lparr> pos_x = pos_x (position prev) * 0.7 + pos_x (position state) * 0.3,
                           pos_y = pos_y (position prev) * 0.7 + pos_y (position state) * 0.3 \<rparr> \<rparr>"

definition handleHandUpdate :: "HandState \<Rightarrow> AppState \<Rightarrow> AppState" where
  "handleHandUpdate state app = app \<lparr> handState := smooth (handState app) state \<rparr>"

text \<open>
  \<open>handleClap\<close> is built by \<open>useCallback\<close> with the dependencies \<open>isExploding\<close> and
  \<open>shapeType\<close>: it closes over the values these had in the render that built it, and is
  built anew when one of them changes. Its guard tests the captured flag; past the guard
  it sets the flag of the state of the moment and schedules, after 500 ms, the callback
  that closes over the captured shape.
\<close>

definition handleClap :: "bool \<Rightarrow> ShapeType \<Rightarrow> AppState \<Rightarrow> AppState" where
  "handleClap capturedExploding capturedShape app =
     (if capturedExploding then app
      else app \<lparr> isExploding := True, timers := timers app @ [(500, capturedShape)] \<rparr>)"

definition allShapes :: "ShapeType list" where
  "allShapes = [Sphere, Cube, Heart, Flower, Saturn, Fireworks, Buddha, GeminiGenerated]"

text \<open>The shapes the callback picks from; every enum value is a string.\<close>

definition availableShapes :: "ShapeType \<Rightarrow> ShapeType list" where
  "availableShapes captured =
     (let shapes = filter (\<lambda>s. s \<noteq> GeminiGenerated \<and> s \<noteq> Buddha \<and> s \<noteq> captured) allShapes
      in if length shapes > 0 then shapes else allShapes)"

definition colors :: "string list" where
  "colors = [''#f43f5e'', ''#3b82f6'', ''#22c55e'', ''#eab308'', ''#a855f7'', ''#ec4899'',
             ''#ffffff'']"

text \<open>\<open>xs[Math.floor(r * xs.length)]\<close> for a value \<open>r\<close> of \<open>Math.random()\<close>.\<close>

definition pick :: "real \<Rightarrow> 'a list \<Rightarrow> 'a option" where
  "pick r xs = elemAt xs (nat \<lfloor>r * real (length xs)\<rfloor>)"

text \<open>
  The oldest pending callback runs. Its random draws are inputs: \<open>rShape\<close> and
  \<open>rColor\<close> are the two values of \<open>Math.random()\<close>, which lie in [0, 1), so that
  both picks are in range; \<open>generated\<close> is the cloud that
  \<open>generateMathShape(nextShape)\<close> returned. Outside [0, 1) the pick would be
  \<open>undefined\<close>, which no field of the state can hold: the model leaves the state as it
  is there.
\<close>

definition timeoutFires :: "real \<Rightarrow> real \<Rightarrow> Point3D list \<Rightarrow> AppState \<Rightarrow> AppState" where
  "timeoutFires rShape rColor generated app =
     (case timers app of
        [] \<Rightarrow> app
      | (delay, captured) # rest \<Rightarrow>
          (case pick rShape (availableShapes captured) of
             None \<Rightarrow> app
           | Some nextShape \<Rightarrow>
               (case pick rColor colors of
                  None \<Rightarrow> app
                | Some c \<Rightarrow>
                    app \<lparr> shapeType := nextShape,
                          targetPoints := generated,
                          color := c,
                          isExploding := False,
                          timers := rest \<rparr>)))"

text \<open>
  \<open>handleShapeChange\<close>: the cloud is the one passed, when one is passed (an empty array
  counts), and otherwise the cloud \<open>generated\<close> that \<open>generateMathShape(type)\<close> returned.
\<close>

definition handleShapeChange ::
  "ShapeType \<Rightarrow> Point3D list option \<Rightarrow> Point3D list \<Rightarrow> AppState \<Rightarrow> AppState" where
  "handleShapeChange type points generated app =
     (case points of
        Some ps \<Rightarrow> app \<lparr> shapeType := type, targetPoints := ps \<rparr>
      | None \<Rightarrow> app \<lparr> shapeType := type, targetPoints := generated \<rparr>)"

text \<open>
  What can happen to the App state, and a run of such events. \<open>HandController\<close>
  subscribes anew whenever \<open>onClap\<close> changes, so a clap normally reaches the callback
  that the latest render built, the one that closes over the flag and the shape of the
  current state (\<open>Clap\<close>). \<open>StaleClap\<close> is a clap that reaches a callback of an
  earlier render, with the flag and the shape that one closed over.
\<close>

datatype event =
  Clap
  | StaleClap bool ShapeType
  | Timeout real real "Point3D list"
  | HandUpdate HandState
  | ShapeChange ShapeType "Point3D list option" "Point3D list"
  | ColorChange string

fun appStep :: "AppState \<Rightarrow> event \<Rightarrow> AppState" where
  "appStep app Clap = handleClap (isExploding app) (shapeType app) app"
| "appStep app (StaleClap capturedExploding capturedShape) =
     handleClap capturedExploding capturedShape app"
| "appStep app (Timeout rShape rColor generated) = timeoutFires rShape rColor generated app"
| "appStep app (HandUpdate state) = handleHandUpdate state app"
| "appStep app (ShapeChange type points generated) = handleShapeChange type points generated app"
| "appStep app (ColorChange c) = app \<lparr> color := c \<rparr>"

definition appRun :: "AppState \<Rightarrow> event list \<Rightarrow> AppState" where
  "appRun app evs = foldl appStep app evs"

section \<open>Particle animator (ParticleSystem.tsx, useFrame)\<close>

definition COUNT :: nat where
  "COUNT = 1500"

text \<open>
  What the frame callback reads of the render state: \<open>state.viewport\<close> and
  \<open>state.clock.getElapsedTime()\<close>.
\<close>

record RootState =
  viewport_width :: real
  viewport_height :: real
  elapsedTime :: real

text \<open>
  The refs the callback mutates: the particle pool, the group's position (a
  \<open>THREE.Vector3\<close>) and rotation (a \<open>THREE.Euler\<close>), and the previous hand position.
\<close>

record Animator =
  currentPositions :: "Point3D list"
  groupPosition :: Point3D
  groupRotation :: Euler
  prevHandPos :: "Point2D option"

text \<open>
  The pool as the mount effect fills it when it is empty; \<open>random i k\<close> is the value of
  the k-th call of \<open>Math.random()\<close> for particle \<open>i\<close>.
\<close>

definition initPool :: "(nat \<Rightarrow> nat \<Rightarrow> real) \<Rightarrow> Point3D list" where
  "initPool random =
     map (\<lambda>i. \<lparr> p_x = (random i 0 - 0.5) * 5,
                   p_y = (random i 1 - 0.5) * 5,
                   p_z = (random i 2 - 0.5) * 5 \<rparr>) [0..<COUNT]"

text \<open>\<open>THREE.MathUtils.lerp\<close> and \<open>Vector3.lerp\<close>, as three.js defines them.\<close>

definition lerp :: "real \<Rightarrow> real \<Rightarrow> real \<Rightarrow> real" where
  "lerp x y t = (1 - t) * x + t * y"

definition lerpV :: "Point3D \<Rightarrow> Point3D \<Rightarrow> real \<Rightarrow> Point3D" where
  "lerpV this v alpha =
     \<lparr> p_x = p_x this + (p_x v - p_x this) * alpha,
       p_y = p_y this + (p_y v - p_y this) * alpha,
       p_z = p_z this + (p_z v - p_z this) * alpha \<rparr>"

text \<open>
  \<open>for (let i = 0; i < COUNT; i++)\<close> over the pool, each particle mutated in place by the
  loop body. \<open>currentPositions.current[i]\<close> is \<open>undefined\<close> beyond the pool's length, and
  reading \<open>.x\<close> of it raises TypeError.
\<close>

function forEachParticle ::
  "(nat \<Rightarrow> Point3D \<Rightarrow> Point3D) \<Rightarrow> nat \<Rightarrow> Point3D list \<Rightarrow> error + Point3D list" where
  "forEachParticle body i ps =
     (if i < COUNT then
        (case elemAt ps i of
           None \<Rightarrow> Inl TypeError
         | Some current \<Rightarrow> forEachParticle body (Suc i) (ps[i := body i current]))
      else Inr ps)"
  by pat_completeness auto
termination
  by (relation "measure (\<lambda>(body, i, ps). COUNT - i)") auto

declare forEachParticle.simps [simp del]

text \<open>The body of the explosion loop.\<close>

definition explodeParticle :: "nat \<Rightarrow> Point3D \<Rightarrow> Point3D" where
  "explodeParticle i current =
     (let baseSpeed = 1.08;
          variation = 1.0 + real (i mod 10) * 0.004;
          speed = baseSpeed * variation
      in \<lparr> p_x = p_x current * speed, p_y = p_y current * speed, p_z = p_z current * speed \<rparr>)"

text \<open>\<open>targetPoints[i % targetLen] || {x: 0, y: 0, z: 0}\<close> with \<open>targetLen = length || 1\<close>.\<close>

definition targetAt :: "Point3D list \<Rightarrow> nat \<Rightarrow> Point3D" where
  "targetAt points i =
     (let targetLen = (if length points = 0 then 1 else length points)
      in case elemAt points (i mod targetLen) of
           None \<Rightarrow> \<lparr> p_x = 0, p_y = 0, p_z = 0 \<rparr>
         | Some target \<Rightarrow> target)"

definition targetScaleOf :: "HandState \<Rightarrow> real" where
  "targetScaleOf hs =
     (if isDetected hs then (if isPinching hs then 1.0 else 0.2 + openness hs * 1.3)
      else 1.5)"

text \<open>The body of the steady-state loop: the blend, then the secondary motion.\<close>

definition blendParticle ::
  "real \<Rightarrow> (nat \<Rightarrow> nat \<Rightarrow> real) \<Rightarrow> Point3D list \<Rightarrow> HandState \<Rightarrow> nat \<Rightarrow> Point3D \<Rightarrow> Point3D" where
  "blendParticle time random points hs i current =
     (let targetScale = targetScaleOf hs;
          lerpSpeed = 0.1;
          target = targetAt points i;
          tx = p_x target * targetScale;
          ty = p_y target * targetScale;
          tz = p_z target * targetScale;
          cx = lerp (p_x current) tx lerpSpeed;
          cy = lerp (p_y current) ty lerpSpeed;
          cz = lerp (p_z current) tz lerpSpeed
      in if isDetected hs \<and> isPinching hs then \<lparr> p_x = cx, p_y = cy, p_z = cz \<rparr>
         else if isDetected hs \<and> openness hs < 0.2 then
           \<lparr> p_x = cx + (random i 0 - 0.5) * 0.05,
             p_y = cy + (random i 1 - 0.5) * 0.05,
             p_z = cz + (random i 2 - 0.5) * 0.05 \<rparr>
         else
           \<lparr> p_x = cx + sin (time * 0.5 + real i) * 0.002,
             p_y = cy + cos (time * 0.3 + real i) * 0.002,
             p_z = cz \<rparr>)"

text \<open>1. Move logic: the group follows a pinching hand, and is left alone otherwise.\<close>

definition moveLogic :: "RootState \<Rightarrow> HandState \<Rightarrow> Animator \<Rightarrow> Animator" where
  "moveLogic state hs s =
     (if isDetected hs \<and> isPinching hs then
        (let targetX = - (pos_x (position hs) - 0.5) * viewport_width state;
             targetY = - (pos_y (position hs) - 0.5) * viewport_height state
         in s \<lparr> groupPosition :=
                  lerpV (groupPosition s) \<lparr> p_x = targetX, p_y = targetY, p_z = 0 \<rparr> 0.15 \<rparr>)
      else s)"

text \<open>2. Rotate logic, and the update of the previous hand position.\<close>

definition rotateLogic :: "HandState \<Rightarrow> Animator \<Rightarrow> Animator" where
  "rotateLogic hs s =
     (if isDetected hs \<and> \<not> isPinching hs \<and> openness hs > 0.6 then
        (case prevHandPos s of
           None \<Rightarrow> s
         | Some prev \<Rightarrow>
             (let dx = pos_x (position hs) - pos_x prev;
                  dy = pos_y (position hs) - pos_y prev;
                  sensitivity = 5.0;
                  r = groupRotation s
              in s \<lparr> groupRotation :=
                       r \<lparr> rot_y := rot_y r + dx * sensitivity,
                           rot_x := rot_x r + dy * sensitivity \<rparr> \<rparr>))
      else s \<lparr> groupRotation := (groupRotation s) \<lparr> rot_y := rot_y (groupRotation s) + 0.001 \<rparr> \<rparr>)"

definition updatePrev :: "HandState \<Rightarrow> Animator \<Rightarrow> Animator" where
  "updatePrev hs s =
     s \<lparr> prevHandPos := (if isDetected hs then Some (position hs) else None) \<rparr>"

text \<open>
  The frame callback, once the mesh and the group are mounted. What it hands to the
  renderer (instance matrices, material colour) is not part of the state.
\<close>

definition useFrame ::
  "RootState \<Rightarrow> (nat \<Rightarrow> nat \<Rightarrow> real) \<Rightarrow> 'a ParticleSystemProps_scheme \<Rightarrow> Animator
     \<Rightarrow> error + Animator" where
  "useFrame state random props s =
     (if isExploding props then
        (case forEachParticle explodeParticle 0 (currentPositions s) of
           Inl e \<Rightarrow> Inl e
         | Inr ps \<Rightarrow>
             Inr (s \<lparr> currentPositions := ps,
                      groupRotation :=
                        (groupRotation s) \<lparr> rot_y := rot_y (groupRotation s) + 0.2,
                                           rot_z := rot_z (groupRotation s) + 0.1 \<rparr> \<rparr>))
      else
        (let hs = handState props;
             s3 = updatePrev hs (rotateLogic hs (moveLogic state hs s))
         in case forEachParticle
                   (blendParticle (elapsedTime state) random (targetPoints props) hs) 0
                   (currentPositions s3) of
              Inl e \<Rightarrow> Inl e
            | Inr ps \<Rightarrow> Inr (s3 \<lparr> currentPositions := ps \<rparr>)))"

text \<open>Successive frames, each with its render state, random source and props.\<close>

fun runTicks ::
  "Animator \<Rightarrow> (RootState \<times> (nat \<Rightarrow> nat \<Rightarrow> real) \<times> ParticleSystemProps) list
     \<Rightarrow> error + Animator" where
  "runTicks s [] = Inr s"
| "runTicks s ((state, random, props) # rest) =
     (case useFrame state random props s of
        Inl e \<Rightarrow> Inl e
      | Inr s' \<Rightarrow> runTicks s' rest)"

text \<open>The Euclidean distance of a particle from the origin.\<close>

definition originDist :: "Point3D \<Rightarrow> real" where
  "originDist p = sqrt ((p_x p)\<^sup>2 + (p_y p)\<^sup>2 + (p_z p)\<^sup>2)"

section \<open>Measures and inputs used in the statements\<close>

text \<open>The (x, y) distance from the wrist, landmark 0, to landmark \<open>idx\<close>.\<close>

definition wristDist :: "Landmark list \<Rightarrow> nat \<Rightarrow> real" where
  "wristDist hand idx =
     sqrt ((p_x (hand ! idx) - p_x (hand ! 0))\<^sup>2 + (p_y (hand ! idx) - p_y (hand ! 0))\<^sup>2)"

text \<open>
  The openness in the words of the claim: the Euclidean distance between the wrist and a
  fingertip, landmarks of three coordinates, averaged over the four fingertips, rescaled
  from [0.15, 0.40] to [0, 1] and clamped.
\<close>

definition wristDistEuclid :: "Landmark list \<Rightarrow> nat \<Rightarrow> real" where
  "wristDistEuclid hand idx =
     sqrt ((p_x (hand ! idx) - p_x (hand ! 0))\<^sup>2 + (p_y (hand ! idx) - p_y (hand ! 0))\<^sup>2
           + (p_z (hand ! idx) - p_z (hand ! 0))\<^sup>2)"

definition opennessEuclid :: "Landmark list \<Rightarrow> real" where
  "opennessEuclid hand =
     min (max (((wristDistEuclid hand 8 + wristDistEuclid hand 12 + wristDistEuclid hand 16
                 + wristDistEuclid hand 20) / 4 - 0.15) / (0.40 - 0.15)) 0) 1"

text \<open>
  A hand of 21 landmarks whose four fingertips are 0.3 to the side of the wrist and 0.4
  apart from it in depth.
\<close>

definition deepHand :: "Landmark list" where
  "deepHand =
     (replicate 21 \<lparr> p_x = 0.5, p_y = 0.5, p_z = 0 \<rparr>)
       [8 := \<lparr> p_x = 0.8, p_y = 0.5, p_z = 0.4 \<rparr>,
        12 := \<lparr> p_x = 0.8, p_y = 0.5, p_z = 0.4 \<rparr>,
        16 := \<lparr> p_x = 0.8, p_y = 0.5, p_z = 0.4 \<rparr>,
        20 := \<lparr> p_x = 0.8, p_y = 0.5, p_z = 0.4 \<rparr>]"

text \<open>A frame in which exactly two hands are present and their centroids are close.\<close>

definition inProximity :: "int \<times> Landmark list list \<Rightarrow> bool" where
  "inProximity frame =
     (case frame of (now, hands) \<Rightarrow> length hands = 2 \<and> handsClose (hands ! 0) (hands ! 1))"

text \<open>
  A hand of 21 landmarks whose thumb tip is at distance exactly 0.05 from its index tip in
  the (x, y) plane (a 3-4-5 triangle), and apart from it in depth.
\<close>

definition boundaryHand :: "Landmark list" where
  "boundaryHand =
     (replicate 21 \<lparr> p_x = 0.5, p_y = 0.5, p_z = 0 \<rparr>)
       [4 := \<lparr> p_x = 0.53, p_y = 0.54, p_z = 0.2 \<rparr>]"

text \<open>Three frames with both hands at the same place, 500 ms and then 700 ms apart.\<close>

definition closeFrames :: "(int \<times> Landmark list list) list" where
  "closeFrames =
     [(1700000000000, [boundaryHand, boundaryHand]),
      (1700000000500, [boundaryHand, boundaryHand]),
      (1700000001200, [boundaryHand, boundaryHand])]"

text \<open>
  A session: the hands meet, one hand leaves the picture 100 ms later, and the hands are
  together again on the two frames after that, 200 and 300 ms after they first met.
\<close>

definition rejoinedFrames :: "(int \<times> Landmark list list) list" where
  "rejoinedFrames =
     [(1700000000200, [boundaryHand, boundaryHand]),
      (1700000000300, [boundaryHand, boundaryHand])]"

definition sessionFrames :: "(int \<times> Landmark list list) list" where
  "sessionFrames =
     (1700000000000, [boundaryHand, boundaryHand]) # (1700000000100, [boundaryHand])
       # rejoinedFrames"

text \<open>A detected open hand away from the centre, and the App state after it is lost.\<close>

definition seenHand :: HandState where
  "seenHand = \<lparr> isDetected = True, position = \<lparr> pos_x = 0.9, pos_y = 0.9 \<rparr>,
                isPinching = False, openness = 1 \<rparr>"

definition lostHandApp :: AppState where
  "lostHandApp = appRun initialApp [HandUpdate seenHand, HandUpdate noHand]"




text \<open>
  The pool after a whole pass of the particle loop: the body applied to each of the first
  \<open>COUNT\<close> particles.
\<close>

definition applyBody :: "(nat \<Rightarrow> Point3D \<Rightarrow> Point3D) \<Rightarrow> Point3D list \<Rightarrow> Point3D list" where
  "applyBody body ps = map (\<lambda>j. if j < COUNT then body j (ps ! j) else ps ! j) [0..<length ps]"

definition origin :: Point3D where
  "origin = \<lparr> p_x = 0, p_y = 0, p_z = 0 \<rparr>"

text \<open>Particle \<open>i\<close> of the pool, its distance from the origin, and the gap between two.\<close>

definition particle :: "nat \<Rightarrow> Animator \<Rightarrow> Point3D" where
  "particle i s = currentPositions s ! i"

definition distOf :: "nat \<Rightarrow> Animator \<Rightarrow> real" where
  "distOf i s = originDist (currentPositions s ! i)"

definition gapOf :: "nat \<Rightarrow> nat \<Rightarrow> Animator \<Rightarrow> real" where
  "gapOf i j s = \<bar>distOf i s - distOf j s\<bar>"

text \<open>The factor by which an explosion frame scales particle \<open>i\<close>.\<close>

definition speedOf :: "nat \<Rightarrow> real" where
  "speedOf i = 1.08 * (1.0 + real (i mod 10) * 0.004)"

text \<open>
  A frame that is not exploding and in which no detected hand pinches; a frame that is not
  exploding, with no hand detected and the target cloud \<open>cloud\<close>.
\<close>

definition noPinchTick :: "RootState \<times> (nat \<Rightarrow> nat \<Rightarrow> real) \<times> ParticleSystemProps \<Rightarrow> bool" where
  "noPinchTick input =
     (case input of (state, random, props) \<Rightarrow>
        \<not> isExploding props \<and> \<not> (isDetected (handState props) \<and> isPinching (handState props)))"

definition idleTick ::
  "Point3D list \<Rightarrow> RootState \<times> (nat \<Rightarrow> nat \<Rightarrow> real) \<times> ParticleSystemProps \<Rightarrow> bool" where
  "idleTick cloud input =
     (case input of (state, random, props) \<Rightarrow>
        targetPoints props = cloud \<and> \<not> isExploding props \<and> \<not> isDetected (handState props))"

text \<open>Concrete frames: the render state at time 0, and a random source stuck at 0.5.\<close>

definition state0 :: RootState where
  "state0 = \<lparr> viewport_width = 8, viewport_height = 6, elapsedTime = 0 \<rparr>"

definition random0 :: "nat \<Rightarrow> nat \<Rightarrow> real" where
  "random0 i k = 0.5"

text \<open>Props with no hand: an empty cloud, a one-point cloud, a cloud at the origin.\<close>

definition idleProps :: ParticleSystemProps where
  "idleProps = \<lparr> targetPoints = [], handState = noHand, color = ''#f43f5e'',
                 isExploding = False \<rparr>"

definition cornerProps :: ParticleSystemProps where
  "cornerProps = \<lparr> targetPoints = [\<lparr> p_x = 2, p_y = 2, p_z = 2 \<rparr>], handState = noHand,
                   color = ''#f43f5e'', isExploding = False \<rparr>"

definition driftProps :: ParticleSystemProps where
  "driftProps = \<lparr> targetPoints = [origin], handState = noHand, color = ''#f43f5e'',
                  isExploding = False \<rparr>"

text \<open>
  Props with a flat open palm held still at the centre; the same with the palm moved to
  (0.6, 0.5); props during an explosion.
\<close>

definition palmProps :: ParticleSystemProps where
  "palmProps = \<lparr> targetPoints = [],
                 handState = \<lparr> isDetected = True, position = \<lparr> pos_x = 0.5, pos_y = 0.5 \<rparr>,
                               isPinching = False, openness = 0.8 \<rparr>,
                 color = ''#f43f5e'', isExploding = False \<rparr>"

definition movedPalmProps :: ParticleSystemProps where
  "movedPalmProps = \<lparr> targetPoints = [],
                      handState = \<lparr> isDetected = True, position = \<lparr> pos_x = 0.6, pos_y = 0.5 \<rparr>,
                                    isPinching = False, openness = 0.8 \<rparr>,
                      color = ''#f43f5e'', isExploding = False \<rparr>"

definition explodingProps :: ParticleSystemProps where
  "explodingProps = \<lparr> targetPoints = [], handState = noHand, color = ''#f43f5e'',
                      isExploding = True \<rparr>"

text \<open>
  Animator states: a fresh pool (at the origin, as the random source is stuck at 0.5) with
  the group placed at (1, 2, 0); the same after a frame that saw the palm at the centre; a
  pool just below its target on the y axis; a pool at the origin but for particles 0 and 5;
  a pool with every particle at distance 1 from the origin.
\<close>

definition placedAnimator :: Animator where
  "placedAnimator =
     \<lparr> currentPositions = initPool random0,
       groupPosition = \<lparr> p_x = 1, p_y = 2, p_z = 0 \<rparr>,
       groupRotation = \<lparr> rot_x = 0, rot_y = 0, rot_z = 0 \<rparr>,
       prevHandPos = None \<rparr>"

definition palmAnimator :: Animator where
  "palmAnimator = placedAnimator \<lparr> prevHandPos := Some \<lparr> pos_x = 0.5, pos_y = 0.5 \<rparr> \<rparr>"

definition driftAnimator :: Animator where
  "driftAnimator =
     \<lparr> currentPositions = replicate COUNT \<lparr> p_x = 0, p_y = - 0.001, p_z = 0 \<rparr>,
       groupPosition = origin,
       groupRotation = \<lparr> rot_x = 0, rot_y = 0, rot_z = 0 \<rparr>,
       prevHandPos = None \<rparr>"

definition burstAnimator :: Animator where
  "burstAnimator =
     \<lparr> currentPositions =
         (replicate COUNT origin) [0 := \<lparr> p_x = 1.2, p_y = 0, p_z = 0 \<rparr>,
                                   5 := \<lparr> p_x = 1, p_y = 0, p_z = 0 \<rparr>],
       groupPosition = origin,
       groupRotation = \<lparr> rot_x = 0, rot_y = 0, rot_z = 0 \<rparr>,
       prevHandPos = None \<rparr>"

definition shellAnimator :: Animator where
  "shellAnimator =
     \<lparr> currentPositions = replicate COUNT \<lparr> p_x = 1, p_y = 0, p_z = 0 \<rparr>,
       groupPosition = origin,
       groupRotation = \<lparr> rot_x = 0, rot_y = 0, rot_z = 0 \<rparr>,
       prevHandPos = None \<rparr>"

section \<open>The gesture interpreter\<close>

lemma elemAt_in_range: "i < length xs \<Longrightarrow> elemAt xs i = Some (xs ! i)"
  by (simp add: elemAt_def)

lemma sumTipDist_tips:
  assumes "20 < length hand"
  shows "sumTipDist hand (hand ! 0) tips 0 =
           Some (wristDist hand 8 + wristDist hand 12 + wristDist hand 16 + wristDist hand 20)"
  using assms by (simp add: tips_def elemAt_in_range wristDist_def)

text \<open>A hand of at least 21 landmarks always yields a state; a shorter one raises.\<close>

lemma handStateOf_full:
  assumes "20 < length hand"
  shows "handStateOf hand =
           Inr \<lparr> isDetected = True,
                 position =
                   (if pinchDistOf (hand ! 4) (hand ! 8) < 0.05
                    then \<lparr> pos_x = (p_x (hand ! 4) + p_x (hand ! 8)) / 2,
                           pos_y = (p_y (hand ! 4) + p_y (hand ! 8)) / 2 \<rparr>
                    else \<lparr> pos_x = p_x (hand ! 9), pos_y = p_y (hand ! 9) \<rparr>),
                 isPinching = (pinchDistOf (hand ! 4) (hand ! 8) < 0.05),
                 openness = opennessOf (wristDist hand 8 + wristDist hand 12
                                          + wristDist hand 16 + wristDist hand 20) \<rparr>"
proof -
  have "elemAt hand 4 = Some (hand ! 4)" "elemAt hand 8 = Some (hand ! 8)"
       "elemAt hand 9 = Some (hand ! 9)" "elemAt hand 0 = Some (hand ! 0)"
    using assms by (auto simp: elemAt_def)
  then show ?thesis
    using sumTipDist_tips[OF assms] by (simp add: handStateOf_def Let_def)
qed

lemma handStateOf_short:
  assumes "length hand \<le> 20"
  shows "handStateOf hand = Inl TypeError"
proof -
  have "sumTipDist hand w tips t = None" for w t
    using assms by (simp add: tips_def elemAt_def split: option.splits)
  then show ?thesis
    by (simp add: handStateOf_def Let_def split: option.splits)
qed

lemma opennessOf_range: "0 \<le> opennessOf t \<and> opennessOf t \<le> 1"
  by (simp add: opennessOf_def Let_def)

lemma opennessOf_formula:
  "opennessOf t = min (max ((t / 4 - 0.15) / (0.40 - 0.15)) 0) 1"
  by (simp add: opennessOf_def Let_def)

lemma boundaryHand_length: "length boundaryHand = 21"
  by (simp add: boundaryHand_def)

lemma deepHand_length: "length deepHand = 21"
  by (simp add: deepHand_def)

lemma deepHand_nth:
  "deepHand ! 0 = \<lparr> p_x = 0.5, p_y = 0.5, p_z = 0 \<rparr>"
  "deepHand ! 8 = \<lparr> p_x = 0.8, p_y = 0.5, p_z = 0.4 \<rparr>"
  "deepHand ! 12 = \<lparr> p_x = 0.8, p_y = 0.5, p_z = 0.4 \<rparr>"
  "deepHand ! 16 = \<lparr> p_x = 0.8, p_y = 0.5, p_z = 0.4 \<rparr>"
  "deepHand ! 20 = \<lparr> p_x = 0.8, p_y = 0.5, p_z = 0.4 \<rparr>"
  by (simp_all add: deepHand_def)

lemma plane_dist: "sqrt ((0.8 - 0.5)\<^sup>2 + (0.5 - 0.5)\<^sup>2) = (0.3 :: real)"
  by (rule real_sqrt_unique) (simp_all add: power2_eq_square)

lemma space_dist: "sqrt ((0.8 - 0.5)\<^sup>2 + (0.5 - 0.5)\<^sup>2 + (0.4 - 0)\<^sup>2) = (0.5 :: real)"
  by (rule real_sqrt_unique) (simp_all add: power2_eq_square)

lemma deepHand_plane:
  "wristDist deepHand 8 = 0.3" "wristDist deepHand 12 = 0.3"
  "wristDist deepHand 16 = 0.3" "wristDist deepHand 20 = 0.3"
  unfolding wristDist_def deepHand_nth Point3D.simps by (rule plane_dist)+

lemma deepHand_space:
  "wristDistEuclid deepHand 8 = 0.5" "wristDistEuclid deepHand 12 = 0.5"
  "wristDistEuclid deepHand 16 = 0.5" "wristDistEuclid deepHand 20 = 0.5"
  unfolding wristDistEuclid_def deepHand_nth Point3D.simps by (rule space_dist)+

text \<open>
  C6, as stated, fails: the code measures the distance from the wrist to a fingertip in the
  (x, y) plane and leaves the depth of the landmarks out. For a hand whose fingertips are
  0.3 to the side of the wrist and 0.4 behind it, the Euclidean distance is 0.5 and the
  openness of the claim is 1, while the emitted openness is 0.6.
\<close>

theorem plane_openness_counterexample:
  "20 < length deepHand \<and>
   map_sum id openness (emittedHandState [deepHand]) = Inr 0.6 \<and>
   opennessEuclid deepHand = 1"
proof -
  have len: "20 < length deepHand"
    by (simp add: deepHand_length)
  have "map_sum id openness (emittedHandState [deepHand]) = Inr 0.6"
    by (simp add: emittedHandState_def handStateOf_full[OF len] deepHand_plane opennessOf_def)
  moreover have "opennessEuclid deepHand = 1"
    unfolding opennessEuclid_def deepHand_space by simp
  ultimately show ?thesis
    using len by simp
qed

text \<open>
  C6, amended: whatever the landmark coordinates of the frame, the emitted openness lies
  in [0, 1]. With a hand present it is the average of the four distances, taken in the
  (x, y) plane with the depth left out, from the wrist (landmark 0) to the fingertips 8,
  12, 16 and 20, rescaled from [0.15, 0.40] to [0, 1] and clamped; with no hand it is 0.
  The hand is a MediaPipe hand, of 21 landmarks.
\<close>

theorem openness_clamped:
  assumes "hands \<noteq> [] \<longrightarrow> 20 < length (hands ! 0)"
  shows "\<exists>hs. emittedHandState hands = Inr hs \<and> 0 \<le> openness hs \<and> openness hs \<le> 1 \<and>
           (hands \<noteq> [] \<longrightarrow>
              openness hs =
                min (max (((wristDist (hands ! 0) 8 + wristDist (hands ! 0) 12
                            + wristDist (hands ! 0) 16 + wristDist (hands ! 0) 20) / 4 - 0.15)
                          / (0.40 - 0.15)) 0) 1)"
proof (cases "hands = []")
  case True
  then show ?thesis by (simp add: emittedHandState_def noHand_def)
next
  case False
  with assms have len: "20 < length (hands ! 0)" by simp
  show ?thesis
    using False opennessOf_range
    by (simp add: emittedHandState_def handStateOf_full[OF len] opennessOf_formula)
qed

text \<open>
  The claim at a hand whose fingertips all lie on the wrist, far below the calibration
  range: the openness is clamped to 0.
\<close>

theorem openness_clamped_witness:
  "[boundaryHand] \<noteq> [] \<and> 20 < length ([boundaryHand] ! 0) \<and>
   (\<exists>hs. emittedHandState [boundaryHand] = Inr hs \<and> openness hs = 0)"
proof -
  have h: "[boundaryHand] \<noteq> [] \<longrightarrow> 20 < length ([boundaryHand] ! 0)"
    by (simp add: boundaryHand_length)
  have "wristDist boundaryHand 8 = 0" "wristDist boundaryHand 12 = 0"
       "wristDist boundaryHand 16 = 0" "wristDist boundaryHand 20 = 0"
    by (simp_all add: wristDist_def boundaryHand_def)
  then show ?thesis
    using h openness_clamped[OF h] by auto
qed

lemma sqrt_less_pos:
  fixes c q :: real
  assumes "0 < c"
  shows "sqrt q < c \<longleftrightarrow> q < c\<^sup>2"
proof -
  have "sqrt q < sqrt (c\<^sup>2) \<longleftrightarrow> q < c\<^sup>2"
    by (rule real_sqrt_less_iff)
  moreover have "sqrt (c\<^sup>2) = c"
    using assms by simp
  ultimately show ?thesis by simp
qed

text \<open>
  C9: a detected hand is pinching exactly when the (x, y) distance between the thumb tip
  (landmark 4) and the index tip (landmark 8) is strictly below 0.05, that is, when the
  squared distance is below 0.0025; at distance exactly 0.05 it is not pinching. The depth
  of the landmarks plays no part.
\<close>

theorem pinch_threshold:
  assumes "20 < length hand"
  shows "\<exists>hs. handStateOf hand = Inr hs \<and>
           (isPinching hs \<longleftrightarrow>
              sqrt ((p_x (hand ! 4) - p_x (hand ! 8))\<^sup>2
                    + (p_y (hand ! 4) - p_y (hand ! 8))\<^sup>2) < 0.05) \<and>
           (isPinching hs \<longleftrightarrow>
              (p_x (hand ! 4) - p_x (hand ! 8))\<^sup>2
                + (p_y (hand ! 4) - p_y (hand ! 8))\<^sup>2 < 0.0025) \<and>
           (sqrt ((p_x (hand ! 4) - p_x (hand ! 8))\<^sup>2
                  + (p_y (hand ! 4) - p_y (hand ! 8))\<^sup>2) = 0.05
              \<longrightarrow> \<not> isPinching hs)"
proof -
  let ?q = "(p_x (hand ! 4) - p_x (hand ! 8))\<^sup>2 + (p_y (hand ! 4) - p_y (hand ! 8))\<^sup>2"
  have sq: "(0.05 :: real)\<^sup>2 = 0.0025"
    by (simp add: power2_eq_square)
  have "sqrt ?q < 0.05 \<longleftrightarrow> ?q < (0.05)\<^sup>2"
    by (rule sqrt_less_pos) simp
  then have "sqrt ?q < 0.05 \<longleftrightarrow> ?q < 0.0025"
    by (simp only: sq)
  then show ?thesis
    by (auto simp: handStateOf_full[OF assms] pinchDistOf_def)
qed

text \<open>The claim at the boundary: thumb and index tips exactly 0.05 apart, not pinching.\<close>

theorem pinch_threshold_witness:
  "20 < length boundaryHand \<and>
   (p_x (boundaryHand ! 4) - p_x (boundaryHand ! 8))\<^sup>2
     + (p_y (boundaryHand ! 4) - p_y (boundaryHand ! 8))\<^sup>2 = 0.0025 \<and>
   (\<exists>hs. handStateOf boundaryHand = Inr hs \<and> \<not> isPinching hs)"
proof -
  have len: "20 < length boundaryHand" by (simp add: boundaryHand_length)
  have 4: "boundaryHand ! 4 = \<lparr> p_x = 0.53, p_y = 0.54, p_z = 0.2 \<rparr>"
    by (simp add: boundaryHand_def)
  have 8: "boundaryHand ! 8 = \<lparr> p_x = 0.5, p_y = 0.5, p_z = 0 \<rparr>"
    by (simp add: boundaryHand_def)
  show ?thesis
    using len pinch_threshold[OF len] by (auto simp: 4 8 power2_eq_square)
qed

subsection \<open>The proximity trigger\<close>

lemma clapTimes_Cons:
  "clapTimes l ((now, hands) # frames) =
     (if length hands = 2 \<and> handsClose (hands ! 0) (hands ! 1) \<and> 1000 < now - l
      then now # clapTimes now frames else clapTimes l frames)"
  by (simp add: onResults_def proximityTrigger_def)

text \<open>Every call of \<open>onClap\<close> comes more than 1000 ms after the time in the ref.\<close>

lemma clapTimes_later: "\<forall>t \<in> set (clapTimes l frames). 1000 < t - l"
proof (induction frames arbitrary: l)
  case Nil
  show ?case by simp
next
  case (Cons f frames)
  obtain now hands where f: "f = (now, hands)" by (cases f)
  show ?case
  proof (cases "length hands = 2 \<and> handsClose (hands ! 0) (hands ! 1) \<and> 1000 < now - l")
    case True
    then have "clapTimes l (f # frames) = now # clapTimes now frames"
      unfolding f clapTimes_Cons by (rule if_P)
    moreover have "\<forall>t \<in> set (clapTimes now frames). 1000 < t - l"
    proof
      fix t
      assume "t \<in> set (clapTimes now frames)"
      then have "1000 < t - now" using Cons.IH[of now] by blast
      then show "1000 < t - l" using True by linarith
    qed
    ultimately show ?thesis using True by simp
  next
    case False
    then have "clapTimes l (f # frames) = clapTimes l frames"
      unfolding f clapTimes_Cons by (rule if_not_P)
    then show ?thesis using Cons.IH[of l] by simp
  qed
qed

lemma clapTimes_spaced: "sorted_wrt (\<lambda>a b. 1000 < b - a) (clapTimes l frames)"
proof (induction frames arbitrary: l)
  case Nil
  show ?case by simp
next
  case (Cons f frames)
  obtain now hands where f: "f = (now, hands)" by (cases f)
  show ?case
  proof (cases "length hands = 2 \<and> handsClose (hands ! 0) (hands ! 1) \<and> 1000 < now - l")
    case True
    then have "clapTimes l (f # frames) = now # clapTimes now frames"
      unfolding f clapTimes_Cons by (rule if_P)
    then show ?thesis
      using Cons.IH[of now] clapTimes_later[of now frames] by simp
  next
    case False
    then have "clapTimes l (f # frames) = clapTimes l frames"
      unfolding f clapTimes_Cons by (rule if_not_P)
    then show ?thesis using Cons.IH[of l] by simp
  qed
qed

lemma clapTimes_proximity:
  assumes "inProximity (now, hands)"
  shows "clapTimes l ((now, hands) # frames) =
           (if 1000 < now - l then now # clapTimes now frames else clapTimes l frames)"
  using assms unfolding inProximity_def by (simp add: clapTimes_Cons del: clapTimes.simps)

lemma handsClose_same: "hand \<noteq> [] \<Longrightarrow> handsClose hand hand"
  by (simp add: handsClose_def getCentroid_def hypot_def PROXIMITY_THRESHOLD_def)

text \<open>
  C5, as stated, fails: when the hands part and meet again 200 ms after a firing, the
  trigger does not fire on the first frame of the new run of close frames, nor on the next;
  the session below fires once, when the hands first met.
\<close>

theorem clap_debounce_counterexample:
  "list_all inProximity rejoinedFrames \<and>
   clapTimes 1700000000000 rejoinedFrames = [] \<and>
   clapTimes 0 sessionFrames = [1700000000000]"
proof -
  have ne: "boundaryHand \<noteq> []"
    using boundaryHand_length by auto
  have close: "handsClose boundaryHand boundaryHand"
    by (rule handsClose_same[OF ne])
  show ?thesis
    by (simp add: rejoinedFrames_def sessionFrames_def inProximity_def close clapTimes_Cons
          del: clapTimes.simps(2))
qed

text \<open>
  C5, amended: take frames that all show exactly two hands with centroids less than 0.12
  apart, the first of them more than 1000 ms after the time in \<open>lastClapTime\<close> (the
  time of the previous firing, and 0 until the first firing of the session). The trigger
  fires on the first frame; on every later frame it fires exactly when more than 1000 ms
  have passed since the latest firing; and any two firings, in this run or any other, are
  more than 1000 ms apart.
\<close>

theorem clap_debounce:
  assumes "list_all inProximity ((now0, hands0) # frames)"
      and "1000 < now0 - l"
  shows "clapTimes l ((now0, hands0) # frames) = now0 # clapTimes now0 frames \<and>
         (\<forall>t \<in> set (clapTimes now0 frames). 1000 < t - now0) \<and>
         (\<forall>l' now hands rest. inProximity (now, hands) \<longrightarrow>
            clapTimes l' ((now, hands) # rest) =
              (if 1000 < now - l' then now # clapTimes now rest else clapTimes l' rest)) \<and>
         sorted_wrt (\<lambda>a b. 1000 < b - a) (clapTimes l ((now0, hands0) # frames))"
proof -
  from assms(1) have p0: "inProximity (now0, hands0)"
    by simp
  have first: "clapTimes l ((now0, hands0) # frames) = now0 # clapTimes now0 frames"
    unfolding clapTimes_proximity[OF p0] using assms(2) by (rule if_P)
  have again: "\<forall>l' now hands rest. inProximity (now, hands) \<longrightarrow>
            clapTimes l' ((now, hands) # rest) =
              (if 1000 < now - l' then now # clapTimes now rest else clapTimes l' rest)"
    using clapTimes_proximity by blast
  show ?thesis
    by (intro conjI first again clapTimes_later clapTimes_spaced)
qed

text \<open>
  The claim on three frames of hands held together, at 0, 500 and 1200 ms: the trigger
  fires on the first and the third.
\<close>

theorem clap_debounce_witness:
  "list_all inProximity closeFrames \<and> 1000 < (1700000000000 :: int) - 0 \<and>
   clapTimes 0 closeFrames = [1700000000000, 1700000001200]"
proof -
  have ne: "boundaryHand \<noteq> []"
    using boundaryHand_length by auto
  have prox: "inProximity (t, [boundaryHand, boundaryHand])" for t
    by (simp add: inProximity_def handsClose_same[OF ne])
  have all: "list_all inProximity
               ((1700000000000, [boundaryHand, boundaryHand]) #
                [(1700000000500, [boundaryHand, boundaryHand]),
                 (1700000001200, [boundaryHand, boundaryHand])])"
    by (simp add: prox)
  have fresh: "1000 < (1700000000000 :: int) - 0"
    by simp
  show ?thesis
    using all fresh clap_debounce[OF all fresh] prox
    by (simp add: closeFrames_def del: clapTimes.simps(2))
qed

section \<open>The session state\<close>

lemma appRun_snoc: "appRun app (evs @ [ev]) = appStep (appRun app evs) ev"
  by (simp add: appRun_def)

lemma replicate_Suc_snoc: "replicate (Suc n) x = replicate n x @ [x]"
  by (simp add: replicate_append_same)

text \<open>Smoothing a no-detection state: the flags are taken over, the numbers are blended.\<close>

lemma lost_step:
  "handState (handleHandUpdate noHand app) =
     \<lparr> isDetected = False,
       position = \<lparr> pos_x = pos_x (position (handState app)) * 0.7 + 0.5 * 0.3,
                     pos_y = pos_y (position (handState app)) * 0.7 + 0.5 * 0.3 \<rparr>,
       isPinching = False,
       openness = openness (handState app) * 0.7 \<rparr>"
  by (simp add: handleHandUpdate_def smooth_def noHand_def)

text \<open>
  C3, as stated, fails: after a detected open hand at (0.9, 0.9) is lost, the state the
  animator receives is not detected, yet its openness is 0.21 and its position is
  (0.584, 0.584), not 0 and the centre.
\<close>

theorem lost_hand_counterexample:
  "\<not> isDetected (handState lostHandApp) \<and>
   openness (handState lostHandApp) = 0.21 \<and>
   position (handState lostHandApp) = \<lparr> pos_x = 0.584, pos_y = 0.584 \<rparr>"
  by (simp add: lostHandApp_def appRun_def handleHandUpdate_def smooth_def noHand_def
        seenHand_def initialApp_def)

text \<open>
  C3, amended: with no hand, the state the interpreter emits is exactly the centre
  (0.5, 0.5), not pinching, openness 0. The smoothed state the animator receives after
  n + 1 such frames in a row is not detected and not pinching, while its openness and the
  offset of its position from the centre are those before the loss multiplied by
  0.7 ^ (n + 1): they decay towards 0 and the centre, and equal them only if they already
  did.
\<close>

theorem lost_hand_decay:
  "emittedHandState [] = Inr noHand \<and>
   position noHand = \<lparr> pos_x = 0.5, pos_y = 0.5 \<rparr> \<and> \<not> isPinching noHand \<and>
   openness noHand = 0 \<and>
   \<not> isDetected (handState (appRun app (replicate (Suc n) (HandUpdate noHand)))) \<and>
   \<not> isPinching (handState (appRun app (replicate (Suc n) (HandUpdate noHand)))) \<and>
   openness (handState (appRun app (replicate (Suc n) (HandUpdate noHand))))
     = 0.7 ^ Suc n * openness (handState app) \<and>
   pos_x (position (handState (appRun app (replicate (Suc n) (HandUpdate noHand))))) - 0.5
     = 0.7 ^ Suc n * (pos_x (position (handState app)) - 0.5) \<and>
   pos_y (position (handState (appRun app (replicate (Suc n) (HandUpdate noHand))))) - 0.5
     = 0.7 ^ Suc n * (pos_y (position (handState app)) - 0.5)"
proof -
  let ?run = "\<lambda>n. handState (appRun app (replicate n (HandUpdate noHand)))"
  have step: "?run (Suc n) =
     \<lparr> isDetected = False,
       position = \<lparr> pos_x = pos_x (position (?run n)) * 0.7 + 0.5 * 0.3,
                     pos_y = pos_y (position (?run n)) * 0.7 + 0.5 * 0.3 \<rparr>,
       isPinching = False,
       openness = openness (?run n) * 0.7 \<rparr>" for n
    unfolding replicate_Suc_snoc appRun_snoc by (simp only: appStep.simps lost_step)
  have decay: "openness (?run n) = 0.7 ^ n * openness (handState app) \<and>
        pos_x (position (?run n)) - 0.5 = 0.7 ^ n * (pos_x (position (handState app)) - 0.5) \<and>
        pos_y (position (?run n)) - 0.5 = 0.7 ^ n * (pos_y (position (handState app)) - 0.5)"
    for n
  proof (induction n)
    case 0
    show ?case by (simp add: appRun_def)
  next
    case (Suc n)
    then show ?case unfolding step by (simp add: algebra_simps)
  qed
  have "emittedHandState [] = Inr noHand"
    by (simp add: emittedHandState_def)
  moreover have "position noHand = \<lparr> pos_x = 0.5, pos_y = 0.5 \<rparr>" "\<not> isPinching noHand"
    "openness noHand = 0"
    by (simp_all add: noHand_def)
  moreover have "\<not> isDetected (?run (Suc n))" "\<not> isPinching (?run (Suc n))"
    unfolding step by simp_all
  ultimately show ?thesis using decay[of "Suc n"] by blast
qed

subsection \<open>Explosion windows\<close>








section \<open>The particle animator\<close>

subsection \<open>The particle loop\<close>

text \<open>
  On a pool of at least \<open>COUNT\<close> particles the loop ends without error, with the body
  applied to each of the first \<open>COUNT\<close> particles and the others untouched; on a
  shorter pool it raises.
\<close>

lemma forEachParticle_spec:
  "COUNT \<le> length ps \<Longrightarrow>
   \<exists>ps'. forEachParticle body i ps = Inr ps' \<and> length ps' = length ps \<and>
     (\<forall>j < length ps. ps' ! j = (if i \<le> j \<and> j < COUNT then body j (ps ! j) else ps ! j))"
proof (induction body i ps rule: forEachParticle.induct)
  case (1 body i ps)
  show ?case
  proof (cases "i < COUNT")
    case False
    then show ?thesis by (subst forEachParticle.simps) auto
  next
    case True
    with "1.prems" have lookup: "elemAt ps i = Some (ps ! i)"
      by (simp add: elemAt_def)
    let ?ps1 = "ps[i := body i (ps ! i)]"
    from "1.IH"[OF True lookup] "1.prems"
    obtain ps' where r: "forEachParticle body (Suc i) ?ps1 = Inr ps'"
      and len: "length ps' = length ?ps1"
      and el: "\<forall>j < length ?ps1. ps' ! j =
                 (if Suc i \<le> j \<and> j < COUNT then body j (?ps1 ! j) else ?ps1 ! j)"
      by auto
    have "forEachParticle body i ps = Inr ps'"
      using True lookup r by (subst forEachParticle.simps) simp
    moreover have "length ps' = length ps" using len by simp
    moreover have "\<forall>j < length ps. ps' ! j =
                     (if i \<le> j \<and> j < COUNT then body j (ps ! j) else ps ! j)"
    proof (intro allI impI)
      fix j assume j: "j < length ps"
      show "ps' ! j = (if i \<le> j \<and> j < COUNT then body j (ps ! j) else ps ! j)"
      proof (cases "j = i")
        case True
        then show ?thesis using el j \<open>i < COUNT\<close> by simp
      next
        case False
        then show ?thesis using el j by (auto simp: nth_list_update)
      qed
    qed
    ultimately show ?thesis by blast
  qed
qed

lemma forEachParticle_result:
  assumes "COUNT \<le> length ps"
  shows "forEachParticle body 0 ps = Inr (applyBody body ps)"
proof -
  from forEachParticle_spec[OF assms, of body 0]
  obtain ps' where r: "forEachParticle body 0 ps = Inr ps'"
    and len: "length ps' = length ps"
    and el: "\<forall>j < length ps. ps' ! j = (if j < COUNT then body j (ps ! j) else ps ! j)"
    by auto
  have "ps' = applyBody body ps"
    by (rule nth_equalityI) (simp_all add: applyBody_def len el)
  with r show ?thesis by simp
qed

lemma forEachParticle_short:
  "length ps < COUNT \<Longrightarrow> i \<le> length ps \<Longrightarrow> forEachParticle body i ps = Inl TypeError"
proof (induction body i ps rule: forEachParticle.induct)
  case (1 body i ps)
  show ?case
  proof (cases "i < length ps")
    case True
    then have "elemAt ps i = Some (ps ! i)" by (simp add: elemAt_def)
    moreover have "i < COUNT" using True "1.prems" by simp
    ultimately show ?thesis using "1.IH"[of "ps ! i"] "1.prems" True
      by (subst forEachParticle.simps) simp
  next
    case False
    then have "elemAt ps i = None" by (simp add: elemAt_def)
    moreover have "i < COUNT" using False "1.prems" by simp
    ultimately show ?thesis by (subst forEachParticle.simps) simp
  qed
qed

lemma applyBody_length: "length (applyBody body ps) = length ps"
  by (simp add: applyBody_def)

lemma applyBody_nth:
  "i < COUNT \<Longrightarrow> COUNT \<le> length ps \<Longrightarrow> applyBody body ps ! i = body i (ps ! i)"
  by (simp add: applyBody_def)

lemma useFrame_exploding:
  assumes "isExploding props" and "COUNT \<le> length (currentPositions s)"
  shows "useFrame state random props s =
           Inr (s \<lparr> currentPositions := applyBody explodeParticle (currentPositions s),
                    groupRotation :=
                      (groupRotation s) \<lparr> rot_y := rot_y (groupRotation s) + 0.2,
                                         rot_z := rot_z (groupRotation s) + 0.1 \<rparr> \<rparr>)"
  using assms by (simp add: useFrame_def forEachParticle_result)

lemma useFrame_steady:
  assumes "\<not> isExploding props" and "COUNT \<le> length (currentPositions s)"
  shows "useFrame state random props s =
           Inr ((updatePrev (handState props)
                   (rotateLogic (handState props) (moveLogic state (handState props) s)))
                 \<lparr> currentPositions :=
                     applyBody (blendParticle (elapsedTime state) random (targetPoints props)
                                  (handState props))
                       (currentPositions s) \<rparr>)"
proof -
  let ?s3 = "updatePrev (handState props)
               (rotateLogic (handState props) (moveLogic state (handState props) s))"
  have pool: "currentPositions ?s3 = currentPositions s"
    by (simp add: updatePrev_def rotateLogic_def moveLogic_def Let_def split: option.splits)
  show ?thesis
    using assms by (simp add: useFrame_def Let_def pool forEachParticle_result)
qed

lemma useFrame_short:
  assumes "length (currentPositions s) < COUNT"
  shows "useFrame state random props s = Inl TypeError"
proof -
  let ?s3 = "updatePrev (handState props)
               (rotateLogic (handState props) (moveLogic state (handState props) s))"
  have pool: "currentPositions ?s3 = currentPositions s"
    by (simp add: updatePrev_def rotateLogic_def moveLogic_def Let_def split: option.splits)
  show ?thesis
    using assms by (simp add: useFrame_def Let_def pool forEachParticle_short)
qed

text \<open>The mount effect fills the pool to its capacity.\<close>

lemma initPool_length: "length (initPool random) = COUNT"
  by (simp add: initPool_def)

subsection \<open>The target of a particle\<close>

lemma targetAt_nonempty:
  "points \<noteq> [] \<Longrightarrow> targetAt points i = points ! (i mod length points)"
  by (simp add: targetAt_def elemAt_def)





subsection \<open>The group position\<close>

lemma noPinch_tick:
  assumes "noPinchTick (state, random, props)" and "COUNT \<le> length (currentPositions s)"
  shows "\<exists>s'. useFrame state random props s = Inr s' \<and>
           groupPosition s' = groupPosition s \<and>
           length (currentPositions s') = length (currentPositions s)"
proof -
  from assms(1) have ne: "\<not> isExploding props"
    and np: "\<not> (isDetected (handState props) \<and> isPinching (handState props))"
    by (simp_all add: noPinchTick_def)
  have "moveLogic state (handState props) s = s"
    using np by (auto simp: moveLogic_def)
  then show ?thesis
    by (simp add: useFrame_steady[OF ne assms(2)] applyBody_length updatePrev_def
          rotateLogic_def Let_def split: option.splits)
qed

text \<open>
  C7: over any number of consecutive frames that are not exploding and in which no
  detected hand pinches (in particular, frames with no hand at all), every frame returns
  and the group's position stays exactly what it was.
\<close>

theorem group_position_held:
  assumes "list_all noPinchTick inputs" and "COUNT \<le> length (currentPositions s)"
  shows "\<exists>s'. runTicks s inputs = Inr s' \<and> groupPosition s' = groupPosition s"
  using assms
proof (induction inputs arbitrary: s)
  case Nil
  then show ?case by simp
next
  case (Cons input inputs)
  obtain state random props where input: "input = (state, random, props)"
    by (cases input)
  from Cons.prems(1) have np: "noPinchTick (state, random, props)"
    and rest: "list_all noPinchTick inputs"
    by (simp_all add: input)
  from noPinch_tick[OF np Cons.prems(2)]
  obtain s1 where s1: "useFrame state random props s = Inr s1"
    and g1: "groupPosition s1 = groupPosition s"
    and l1: "length (currentPositions s1) = length (currentPositions s)"
    by blast
  from Cons.IH[OF rest, of s1] l1 Cons.prems(2)
  obtain s' where "runTicks s1 inputs = Inr s'" and "groupPosition s' = groupPosition s1"
    by auto
  then show ?case
    by (simp add: input s1 g1)
qed

text \<open>The claim on 100 frames without a hand, the group placed at (1, 2, 0).\<close>

theorem group_position_held_witness:
  "list_all noPinchTick (replicate 100 (state0, random0, idleProps)) \<and>
   COUNT \<le> length (currentPositions placedAnimator) \<and>
   (\<exists>s'. runTicks placedAnimator (replicate 100 (state0, random0, idleProps)) = Inr s' \<and>
      groupPosition s' = \<lparr> p_x = 1, p_y = 2, p_z = 0 \<rparr>)"
proof -
  have np: "noPinchTick (state0, random0, idleProps)"
    by (simp add: noPinchTick_def idleProps_def noHand_def)
  then have all: "list_all noPinchTick (replicate 100 (state0, random0, idleProps))"
    by (simp add: list_all_iff)
  have h: "COUNT \<le> length (currentPositions placedAnimator)"
    by (simp add: placedAnimator_def initPool_length)
  have g: "groupPosition placedAnimator = \<lparr> p_x = 1, p_y = 2, p_z = 0 \<rparr>"
    by (simp add: placedAnimator_def)
  show ?thesis
    using all h group_position_held[OF all h] by (simp add: g)
qed

subsection \<open>The group rotation\<close>

lemma steady_rotation:
  assumes "\<not> isExploding props" and "COUNT \<le> length (currentPositions s)"
  shows "\<exists>s'. useFrame state random props s = Inr s' \<and>
           length (currentPositions s') = length (currentPositions s) \<and>
           groupRotation s' = groupRotation (rotateLogic (handState props) s) \<and>
           prevHandPos s' = (if isDetected (handState props)
                             then Some (position (handState props)) else None)"
  by (simp add: useFrame_steady[OF assms] applyBody_length updatePrev_def rotateLogic_def
        moveLogic_def Let_def split: option.splits)

text \<open>
  C8, as stated, fails: with a flat open palm (openness 0.8, not pinching) held still at
  the position of the previous frame, and also on the first frame that detects it, the
  frame leaves the group rotation exactly as it was.
\<close>

theorem idle_rotation_counterexample:
  "\<not> isExploding palmProps \<and>
   map_sum id groupRotation (useFrame state0 random0 palmProps palmAnimator)
     = Inr (groupRotation palmAnimator) \<and>
   map_sum id groupRotation (useFrame state0 random0 palmProps placedAnimator)
     = Inr (groupRotation placedAnimator)"
proof -
  have ne: "\<not> isExploding palmProps"
    by (simp add: palmProps_def)
  have h1: "COUNT \<le> length (currentPositions palmAnimator)"
    by (simp add: palmAnimator_def placedAnimator_def initPool_length)
  have h2: "COUNT \<le> length (currentPositions placedAnimator)"
    by (simp add: placedAnimator_def initPool_length)
  have r1: "groupRotation (rotateLogic (handState palmProps) palmAnimator)
              = groupRotation palmAnimator"
    by (simp add: rotateLogic_def palmProps_def palmAnimator_def placedAnimator_def)
  have r2: "groupRotation (rotateLogic (handState palmProps) placedAnimator)
              = groupRotation placedAnimator"
    by (simp add: rotateLogic_def palmProps_def placedAnimator_def)
  show ?thesis
    using ne steady_rotation[OF ne h1, of state0 random0]
      steady_rotation[OF ne h2, of state0 random0]
    by (auto simp: r1 r2)
qed

text \<open>The rotate logic of a frame that is not exploding.\<close>

lemma steady_rotation_law:
  assumes "\<not> isExploding props" and "COUNT \<le> length (currentPositions s)"
  shows "\<exists>s'. useFrame state random props s = Inr s' \<and>
           length (currentPositions s') = length (currentPositions s) \<and>
           prevHandPos s' = (if isDetected (handState props)
                             then Some (position (handState props)) else None) \<and>
           groupRotation s' =
             (if isDetected (handState props) \<and> \<not> isPinching (handState props)
                 \<and> 0.6 < openness (handState props)
              then (case prevHandPos s of
                      None \<Rightarrow> groupRotation s
                    | Some prev \<Rightarrow>
                        \<lparr> rot_x = rot_x (groupRotation s)
                                   + (pos_y (position (handState props)) - pos_y prev) * 5.0,
                          rot_y = rot_y (groupRotation s)
                                   + (pos_x (position (handState props)) - pos_x prev) * 5.0,
                          rot_z = rot_z (groupRotation s) \<rparr>)
              else \<lparr> rot_x = rot_x (groupRotation s),
                     rot_y = rot_y (groupRotation s) + 0.001,
                     rot_z = rot_z (groupRotation s) \<rparr>) \<and>
           (\<not> (isDetected (handState props) \<and> \<not> isPinching (handState props)
                \<and> 0.6 < openness (handState props))
              \<longrightarrow> groupRotation s' \<noteq> groupRotation s)"
proof -
  from steady_rotation[OF assms, of state random]
  obtain s' where s': "useFrame state random props s = Inr s'"
    and len: "length (currentPositions s') = length (currentPositions s)"
    and rot: "groupRotation s' = groupRotation (rotateLogic (handState props) s)"
    and prev: "prevHandPos s' = (if isDetected (handState props)
                                 then Some (position (handState props)) else None)"
    by blast
  let ?palm = "isDetected (handState props) \<and> \<not> isPinching (handState props)
                 \<and> 0.6 < openness (handState props)"
  have law: "groupRotation (rotateLogic (handState props) s) =
             (if ?palm
              then (case prevHandPos s of
                      None \<Rightarrow> groupRotation s
                    | Some prev \<Rightarrow>
                        \<lparr> rot_x = rot_x (groupRotation s)
                                   + (pos_y (position (handState props)) - pos_y prev) * 5.0,
                          rot_y = rot_y (groupRotation s)
                                   + (pos_x (position (handState props)) - pos_x prev) * 5.0,
                          rot_z = rot_z (groupRotation s) \<rparr>)
              else \<lparr> rot_x = rot_x (groupRotation s),
                     rot_y = rot_y (groupRotation s) + 0.001,
                     rot_z = rot_z (groupRotation s) \<rparr>)"
    by (cases "groupRotation s") (simp add: rotateLogic_def Let_def split: option.splits)
  have moved: "\<not> ?palm \<longrightarrow> groupRotation s' \<noteq> groupRotation s"
  proof
    assume "\<not> ?palm"
    then have "rot_y (groupRotation s') = rot_y (groupRotation s) + 0.001"
      unfolding rot law by auto
    then show "groupRotation s' \<noteq> groupRotation s"
      by auto
  qed
  show ?thesis
    using s' len prev moved unfolding rot law[symmetric] by (intro exI[of _ s']) (simp add: rot)
qed

lemma exploding_rotation:
  assumes "isExploding props" and "COUNT \<le> length (currentPositions s)"
  shows "\<exists>s'. useFrame state random props s = Inr s' \<and>
           length (currentPositions s') = length (currentPositions s) \<and>
           prevHandPos s' = prevHandPos s \<and>
           groupRotation s' = \<lparr> rot_x = rot_x (groupRotation s),
                                  rot_y = rot_y (groupRotation s) + 0.2,
                                  rot_z = rot_z (groupRotation s) + 0.1 \<rparr>"
  by (cases "groupRotation s") (simp add: useFrame_exploding[OF assms] applyBody_length)

text \<open>
  C8, amended: on a frame that is not exploding, when a hand is detected, not pinching and
  its openness exceeds 0.6, the rotation gains 5.0 times the difference between the gesture
  position and the remembered one (horizontal difference on the y axis, vertical
  difference on the x axis) if a position is remembered, and is left as it was if none
  is: it stays the same when the hand has not moved. Otherwise 0.001 is added on the y
  axis, so outside the open-palm gesture the rotation changes on every such frame. A frame
  that is not exploding then remembers the gesture position if it detected a hand, and
  nothing if it did not; an exploding frame adds 0.2 and 0.1 to the rotation on the y and
  z axes and leaves what is remembered as it is, so the first open-palm frame after an
  explosion compares with the position from before the explosion.
\<close>

theorem rotation_step:
  assumes "COUNT \<le> length (currentPositions s)"
  shows "\<exists>s'. useFrame state random props s = Inr s' \<and>
           length (currentPositions s') = length (currentPositions s) \<and>
           (isExploding props \<longrightarrow>
              prevHandPos s' = prevHandPos s \<and>
              groupRotation s' = \<lparr> rot_x = rot_x (groupRotation s),
                                     rot_y = rot_y (groupRotation s) + 0.2,
                                     rot_z = rot_z (groupRotation s) + 0.1 \<rparr>) \<and>
           (\<not> isExploding props \<longrightarrow>
              prevHandPos s' = (if isDetected (handState props)
                                then Some (position (handState props)) else None) \<and>
              groupRotation s' =
                (if isDetected (handState props) \<and> \<not> isPinching (handState props)
                    \<and> 0.6 < openness (handState props)
                 then (case prevHandPos s of
                         None \<Rightarrow> groupRotation s
                       | Some prev \<Rightarrow>
                           \<lparr> rot_x = rot_x (groupRotation s)
                                      + (pos_y (position (handState props)) - pos_y prev) * 5.0,
                             rot_y = rot_y (groupRotation s)
                                      + (pos_x (position (handState props)) - pos_x prev) * 5.0,
                             rot_z = rot_z (groupRotation s) \<rparr>)
                 else \<lparr> rot_x = rot_x (groupRotation s),
                        rot_y = rot_y (groupRotation s) + 0.001,
                        rot_z = rot_z (groupRotation s) \<rparr>) \<and>
              (\<not> (isDetected (handState props) \<and> \<not> isPinching (handState props)
                   \<and> 0.6 < openness (handState props))
                 \<longrightarrow> groupRotation s' \<noteq> groupRotation s))"
proof (cases "isExploding props")
  case True
  from exploding_rotation[OF True assms, of state random] True
  show ?thesis by blast
next
  case False
  from steady_rotation_law[OF False assms, of state random] False
  show ?thesis by blast
qed

text \<open>
  The amended claim on a frame without a hand (the idle rotation of 0.001), and on an
  exploding frame followed by a frame with the open palm at (0.6, 0.5), when the palm was
  last seen at (0.5, 0.5) before the explosion: the rotation on the y axis is
  0.2 + 5 * 0.1.
\<close>

theorem rotation_step_witness:
  "COUNT \<le> length (currentPositions placedAnimator) \<and>
   COUNT \<le> length (currentPositions palmAnimator) \<and>
   \<not> isExploding idleProps \<and> isExploding explodingProps \<and> \<not> isExploding movedPalmProps \<and>
   (\<exists>s'. useFrame state0 random0 idleProps placedAnimator = Inr s' \<and>
      prevHandPos s' = None \<and>
      groupRotation s' = \<lparr> rot_x = 0, rot_y = 0.001, rot_z = 0 \<rparr>) \<and>
   (\<exists>s1 s2. useFrame state0 random0 explodingProps palmAnimator = Inr s1 \<and>
      prevHandPos s1 = Some \<lparr> pos_x = 0.5, pos_y = 0.5 \<rparr> \<and>
      useFrame state0 random0 movedPalmProps s1 = Inr s2 \<and>
      prevHandPos s2 = Some \<lparr> pos_x = 0.6, pos_y = 0.5 \<rparr> \<and>
      groupRotation s2 = \<lparr> rot_x = 0, rot_y = 0.7, rot_z = 0.1 \<rparr>)"
proof -
  have ne: "\<not> isExploding idleProps"
    by (simp add: idleProps_def)
  have ex: "isExploding explodingProps"
    by (simp add: explodingProps_def)
  have nm: "\<not> isExploding movedPalmProps"
    by (simp add: movedPalmProps_def)
  have pool: "COUNT \<le> length (currentPositions placedAnimator)"
    by (simp add: placedAnimator_def initPool_length)
  have pool': "COUNT \<le> length (currentPositions palmAnimator)"
    by (simp add: palmAnimator_def placedAnimator_def initPool_length)
  have hs: "\<not> isDetected (handState idleProps)"
    by (simp add: idleProps_def noHand_def)
  have r: "groupRotation placedAnimator = \<lparr> rot_x = 0, rot_y = 0, rot_z = 0 \<rparr>"
    by (simp add: placedAnimator_def)
  have idle: "\<exists>s'. useFrame state0 random0 idleProps placedAnimator = Inr s' \<and>
      prevHandPos s' = None \<and>
      groupRotation s' = \<lparr> rot_x = 0, rot_y = 0.001, rot_z = 0 \<rparr>"
    using ne rotation_step[OF pool, of state0 random0 idleProps] by (auto simp: hs r)
  from rotation_step[OF pool', of state0 random0 explodingProps] ex
  obtain s1 where s1: "useFrame state0 random0 explodingProps palmAnimator = Inr s1"
    and l1: "length (currentPositions s1) = length (currentPositions palmAnimator)"
    and p1: "prevHandPos s1 = prevHandPos palmAnimator"
    and r1: "groupRotation s1 = \<lparr> rot_x = rot_x (groupRotation palmAnimator),
                                    rot_y = rot_y (groupRotation palmAnimator) + 0.2,
                                    rot_z = rot_z (groupRotation palmAnimator) + 0.1 \<rparr>"
    by blast
  have p1': "prevHandPos s1 = Some \<lparr> pos_x = 0.5, pos_y = 0.5 \<rparr>"
    unfolding p1 by (simp add: palmAnimator_def)
  have r1': "groupRotation s1 = \<lparr> rot_x = 0, rot_y = 0.2, rot_z = 0.1 \<rparr>"
    unfolding r1 by (simp add: palmAnimator_def placedAnimator_def)
  have pool1: "COUNT \<le> length (currentPositions s1)"
    using l1 pool' by simp
  have palm: "handState movedPalmProps
                = \<lparr> isDetected = True, position = \<lparr> pos_x = 0.6, pos_y = 0.5 \<rparr>,
                    isPinching = False, openness = 0.8 \<rparr>"
    by (simp add: movedPalmProps_def)
  from rotation_step[OF pool1, of state0 random0 movedPalmProps] nm
  obtain s2 where s2: "useFrame state0 random0 movedPalmProps s1 = Inr s2"
    and p2: "prevHandPos s2 = Some \<lparr> pos_x = 0.6, pos_y = 0.5 \<rparr>"
    and r2: "groupRotation s2 = \<lparr> rot_x = 0, rot_y = 0.7, rot_z = 0.1 \<rparr>"
    unfolding palm p1' r1' by auto
  show ?thesis
    using pool pool' ne ex nm idle s1 p1' s2 p2 r2 by blast
qed

subsection \<open>The explosion\<close>

lemma speedOf_gt_1: "1 < speedOf i"
proof -
  have "0 \<le> real (i mod 10)" by simp
  then show ?thesis by (simp add: speedOf_def field_simps)
qed

lemma speedOf_mono: "i mod 10 < j mod 10 \<Longrightarrow> speedOf i < speedOf j"
  by (simp add: speedOf_def)

lemma originDist_explode: "originDist (explodeParticle i p) = speedOf i * originDist p"
proof -
  let ?k = "speedOf i"
  have k: "0 \<le> ?k" using speedOf_gt_1[of i] by simp
  have "(p_x p * ?k)\<^sup>2 + (p_y p * ?k)\<^sup>2 + (p_z p * ?k)\<^sup>2
          = ?k\<^sup>2 * ((p_x p)\<^sup>2 + (p_y p)\<^sup>2 + (p_z p)\<^sup>2)"
    by (simp add: power_mult_distrib algebra_simps)
  then have "sqrt ((p_x p * ?k)\<^sup>2 + (p_y p * ?k)\<^sup>2 + (p_z p * ?k)\<^sup>2)
          = ?k * sqrt ((p_x p)\<^sup>2 + (p_y p)\<^sup>2 + (p_z p)\<^sup>2)"
    using k by (simp add: real_sqrt_mult)
  then show ?thesis
    by (simp add: originDist_def explodeParticle_def Let_def speedOf_def)
qed

lemma explosion_tick:
  assumes "isExploding props" and "COUNT \<le> length (currentPositions s)"
  shows "\<exists>s'. useFrame state random props s = Inr s' \<and>
           length (currentPositions s') = length (currentPositions s) \<and>
           (\<forall>i < COUNT. distOf i s' = speedOf i * distOf i s)"
  using assms(2)
  by (simp add: useFrame_exploding[OF assms] applyBody_length applyBody_nth distOf_def
        originDist_explode)

text \<open>
  C2, amended: an explosion frame multiplies the distance of particle \<open>i\<close> from the
  origin by 1.08 * (1 + 0.004 * (i mod 10)). The distance of a particle away from the
  origin thus grows strictly on every frame, and a particle at the origin stays there. For
  two particles away from the origin with \<open>i mod 10 < j mod 10\<close>, the ratio of the
  distance of \<open>j\<close> to that of \<open>i\<close> grows strictly on every frame; and when particle
  \<open>j\<close> is at least as far out as particle \<open>i\<close>, the gap between their distances grows
  strictly on the frame and \<open>j\<close> stays at least as far out, so the same holds on the
  frames that follow.
\<close>

lemma ratio_grows:
  fixes a b di dj :: real
  assumes "0 < a" and "a < b" and "0 < di" and "0 < dj"
  shows "dj / di < (b * dj) / (a * di)"
proof -
  have "1 < b / a" using assms(1,2) by simp
  moreover have "0 < dj / di" using assms(3,4) by simp
  ultimately have "1 * (dj / di) < (b / a) * (dj / di)"
    by (rule mult_strict_right_mono)
  then show ?thesis by simp
qed

theorem explosion_distance:
  assumes "isExploding props" and "COUNT \<le> length (currentPositions s)"
      and "i < COUNT" and "j < COUNT"
  shows "\<exists>s'. useFrame state random props s = Inr s' \<and>
           distOf i s' = 1.08 * (1 + 0.004 * real (i mod 10)) * distOf i s \<and>
           (0 < distOf i s \<longrightarrow> distOf i s < distOf i s') \<and>
           (distOf i s = 0 \<longrightarrow> distOf i s' = 0) \<and>
           (i mod 10 < j mod 10 \<and> 0 < distOf i s \<and> 0 < distOf j s \<longrightarrow>
              distOf j s / distOf i s < distOf j s' / distOf i s') \<and>
           (i mod 10 < j mod 10 \<and> 0 < distOf i s \<and> distOf i s \<le> distOf j s \<longrightarrow>
              distOf j s - distOf i s < distOf j s' - distOf i s' \<and>
              distOf i s' \<le> distOf j s')"
proof -
  from explosion_tick[OF assms(1,2), of state random]
  obtain s' where s': "useFrame state random props s = Inr s'"
    and all: "\<forall>i < COUNT. distOf i s' = speedOf i * distOf i s"
    by blast
  from all assms(3,4) have di: "distOf i s' = speedOf i * distOf i s"
    and dj: "distOf j s' = speedOf j * distOf j s"
    by simp_all
  have form: "distOf i s' = 1.08 * (1 + 0.004 * real (i mod 10)) * distOf i s"
    unfolding di by (simp add: speedOf_def)
  have grow: "0 < distOf i s \<longrightarrow> distOf i s < distOf i s'"
    unfolding di using speedOf_gt_1[of i] by simp
  have zero: "distOf i s = 0 \<longrightarrow> distOf i s' = 0"
    unfolding di by simp
  have gap: "i mod 10 < j mod 10 \<and> 0 < distOf i s \<and> distOf i s \<le> distOf j s \<longrightarrow>
              distOf j s - distOf i s < distOf j s' - distOf i s' \<and>
              distOf i s' \<le> distOf j s'"
  proof
    assume a: "i mod 10 < j mod 10 \<and> 0 < distOf i s \<and> distOf i s \<le> distOf j s"
    then have lt: "speedOf i < speedOf j" by (simp add: speedOf_mono)
    have gi: "1 < speedOf i" by (rule speedOf_gt_1)
    from a have pi: "0 < distOf i s" and le: "distOf i s \<le> distOf j s" by simp_all
    have 1: "speedOf i * distOf i s \<le> speedOf i * distOf j s"
      using le gi by simp
    have 2: "speedOf i * distOf j s < speedOf j * distOf j s"
      using lt pi le by simp
    have 3: "(speedOf i - 1) * distOf i s \<le> (speedOf i - 1) * distOf j s"
      using le gi by (simp add: mult_left_mono)
    have 4: "(speedOf i - 1) * distOf j s < (speedOf j - 1) * distOf j s"
      using lt pi le by simp
    from 3 4 have "(speedOf i - 1) * distOf i s < (speedOf j - 1) * distOf j s"
      by linarith
    then have "distOf j s - distOf i s < speedOf j * distOf j s - speedOf i * distOf i s"
      by (simp add: algebra_simps)
    moreover from 1 2 have "speedOf i * distOf i s \<le> speedOf j * distOf j s"
      by linarith
    ultimately show "distOf j s - distOf i s < distOf j s' - distOf i s' \<and>
              distOf i s' \<le> distOf j s'"
      unfolding di dj by simp
  qed
  have ratio: "i mod 10 < j mod 10 \<and> 0 < distOf i s \<and> 0 < distOf j s \<longrightarrow>
              distOf j s / distOf i s < distOf j s' / distOf i s'"
  proof
    assume a: "i mod 10 < j mod 10 \<and> 0 < distOf i s \<and> 0 < distOf j s"
    then have lt: "speedOf i < speedOf j" by (simp add: speedOf_mono)
    have "0 < speedOf i" using speedOf_gt_1[of i] by simp
    from ratio_grows[OF this lt] a
    show "distOf j s / distOf i s < distOf j s' / distOf i s'"
      unfolding di dj by blast
  qed
  show ?thesis
    using s' form grow zero ratio gap by blast
qed

lemma burst_pool: "COUNT \<le> length (currentPositions burstAnimator)"
  by (simp add: burstAnimator_def)

lemma burst_dists:
  "distOf 0 burstAnimator = 1.2" "distOf 1 burstAnimator = 0" "distOf 5 burstAnimator = 1"
  by (simp_all add: distOf_def burstAnimator_def COUNT_def origin_def originDist_def)

text \<open>
  C2, as stated, fails: a particle at the origin is at distance 0 before and after an
  explosion frame; and particles 0 and 5, at distances 1.2 and 1, are 0.2 apart in
  distance before the frame and 0.1944 after it.
\<close>

theorem explosion_distance_counterexample:
  "isExploding explodingProps \<and>
   distOf 1 burstAnimator = 0 \<and>
   map_sum id (distOf 1) (useFrame state0 random0 explodingProps burstAnimator) = Inr 0 \<and>
   gapOf 0 5 burstAnimator = 0.2 \<and>
   map_sum id (gapOf 0 5) (useFrame state0 random0 explodingProps burstAnimator) = Inr 0.1944"
proof -
  have e: "isExploding explodingProps" by (simp add: explodingProps_def)
  from explosion_tick[OF e burst_pool, of state0 random0]
  obtain s' where s': "useFrame state0 random0 explodingProps burstAnimator = Inr s'"
    and all: "\<forall>i < COUNT. distOf i s' = speedOf i * distOf i burstAnimator"
    by blast
  have "(0::nat) < COUNT" "(1::nat) < COUNT" "(5::nat) < COUNT"
    by (simp_all add: COUNT_def)
  with all have d: "distOf 0 s' = speedOf 0 * distOf 0 burstAnimator"
    "distOf 1 s' = speedOf 1 * distOf 1 burstAnimator"
    "distOf 5 s' = speedOf 5 * distOf 5 burstAnimator"
    by blast+
  have "distOf 0 s' = 1.296" "distOf 1 s' = 0" "distOf 5 s' = 1.1016"
    unfolding d burst_dists by (simp_all add: speedOf_def)
  then show ?thesis
    using e unfolding s' gapOf_def burst_dists by simp
qed

text \<open>
  The amended claim on particles 0 and 5 of a pool whose particles are all at distance 1:
  after the frame they are at 1.08 and 1.1016, a gap of 0.0216.
\<close>

theorem explosion_distance_witness:
  "isExploding explodingProps \<and> COUNT \<le> length (currentPositions shellAnimator) \<and>
   (0::nat) < COUNT \<and> (5::nat) < COUNT \<and>
   (0::nat) mod 10 < 5 mod 10 \<and> 0 < distOf 0 shellAnimator \<and>
   distOf 0 shellAnimator \<le> distOf 5 shellAnimator \<and>
   (\<exists>s'. useFrame state0 random0 explodingProps shellAnimator = Inr s' \<and>
      distOf 0 s' = 1.08 \<and>
      distOf 0 shellAnimator < distOf 0 s' \<and>
      distOf 5 shellAnimator / distOf 0 shellAnimator < distOf 5 s' / distOf 0 s' \<and>
      distOf 5 shellAnimator - distOf 0 shellAnimator < distOf 5 s' - distOf 0 s')"
proof -
  have e: "isExploding explodingProps" by (simp add: explodingProps_def)
  have pool: "COUNT \<le> length (currentPositions shellAnimator)"
    by (simp add: shellAnimator_def)
  have i: "(0::nat) < COUNT" and j: "(5::nat) < COUNT" by (simp_all add: COUNT_def)
  have d: "distOf 0 shellAnimator = 1" "distOf 5 shellAnimator = 1"
    by (simp_all add: distOf_def shellAnimator_def COUNT_def originDist_def)
  show ?thesis
    using e pool i j explosion_distance[OF e pool i j, of state0 random0]
    unfolding d by auto
qed

subsection \<open>The steady-state blend without a hand\<close>

lemma blendParticle_idle:
  assumes "\<not> isDetected hs"
  shows "blendParticle time random points hs i c =
           \<lparr> p_x = lerp (p_x c) (p_x (targetAt points i) * 1.5) 0.1
                     + sin (time * 0.5 + real i) * 0.002,
             p_y = lerp (p_y c) (p_y (targetAt points i) * 1.5) 0.1
                     + cos (time * 0.3 + real i) * 0.002,
             p_z = lerp (p_z c) (p_z (targetAt points i) * 1.5) 0.1 \<rparr>"
  using assms by (simp add: blendParticle_def targetScaleOf_def Let_def)

lemma lerp_offset: "lerp c t 0.1 - t = 0.9 * (c - t)"
  by (simp add: lerp_def algebra_simps)

lemma idle_tick:
  assumes "idleTick cloud (state, random, props)" and "cloud \<noteq> []"
      and "COUNT \<le> length (currentPositions s)" and "i < COUNT"
  shows "\<exists>s'. useFrame state random props s = Inr s' \<and>
           length (currentPositions s') = length (currentPositions s) \<and>
           p_x (particle i s') - 1.5 * p_x (cloud ! (i mod length cloud))
             = 0.9 * (p_x (particle i s) - 1.5 * p_x (cloud ! (i mod length cloud)))
               + sin (elapsedTime state * 0.5 + real i) * 0.002 \<and>
           p_y (particle i s') - 1.5 * p_y (cloud ! (i mod length cloud))
             = 0.9 * (p_y (particle i s) - 1.5 * p_y (cloud ! (i mod length cloud)))
               + cos (elapsedTime state * 0.3 + real i) * 0.002 \<and>
           p_z (particle i s') - 1.5 * p_z (cloud ! (i mod length cloud))
             = 0.9 * (p_z (particle i s) - 1.5 * p_z (cloud ! (i mod length cloud)))"
proof -
  from assms(1) have tp: "targetPoints props = cloud" and ne: "\<not> isExploding props"
    and nd: "\<not> isDetected (handState props)"
    by (simp_all add: idleTick_def)
  let ?t = "cloud ! (i mod length cloud)"
  let ?s' = "(updatePrev (handState props)
                (rotateLogic (handState props) (moveLogic state (handState props) s)))
              \<lparr> currentPositions :=
                  applyBody (blendParticle (elapsedTime state) random (targetPoints props)
                               (handState props))
                    (currentPositions s) \<rparr>"
  have run: "useFrame state random props s = Inr ?s'"
    by (rule useFrame_steady[OF ne assms(3)])
  have p: "particle i ?s' =
             \<lparr> p_x = lerp (p_x (particle i s)) (p_x ?t * 1.5) 0.1
                       + sin (elapsedTime state * 0.5 + real i) * 0.002,
               p_y = lerp (p_y (particle i s)) (p_y ?t * 1.5) 0.1
                       + cos (elapsedTime state * 0.3 + real i) * 0.002,
               p_z = lerp (p_z (particle i s)) (p_z ?t * 1.5) 0.1 \<rparr>"
    using assms(3,4)
    by (simp add: particle_def applyBody_nth blendParticle_idle[OF nd] tp
          targetAt_nonempty[OF assms(2)])
  have x: "p_x (particle i ?s') - 1.5 * p_x ?t
             = 0.9 * (p_x (particle i s) - 1.5 * p_x ?t)
               + sin (elapsedTime state * 0.5 + real i) * 0.002"
    using lerp_offset[of "p_x (particle i s)" "p_x ?t * 1.5"] unfolding p by simp
  have y: "p_y (particle i ?s') - 1.5 * p_y ?t
             = 0.9 * (p_y (particle i s) - 1.5 * p_y ?t)
               + cos (elapsedTime state * 0.3 + real i) * 0.002"
    using lerp_offset[of "p_y (particle i s)" "p_y ?t * 1.5"] unfolding p by simp
  have z: "p_z (particle i ?s') - 1.5 * p_z ?t = 0.9 * (p_z (particle i s) - 1.5 * p_z ?t)"
    using lerp_offset[of "p_z (particle i s)" "p_z ?t * 1.5"] unfolding p by simp
  have len: "length (currentPositions ?s') = length (currentPositions s)"
    by (simp add: applyBody_length)
  show ?thesis
    using run len x y z by blast
qed

lemma drift_bound:
  fixes e e' d :: real
  assumes "e' = 0.9 * e + d" and "\<bar>d\<bar> \<le> 0.002"
  shows "\<bar>e'\<bar> \<le> 0.9 * \<bar>e\<bar> + 0.002"
proof -
  have "\<bar>e'\<bar> \<le> \<bar>0.9 * e\<bar> + \<bar>d\<bar>" unfolding assms(1) by (rule abs_triangle_ineq)
  also have "\<bar>0.9 * e\<bar> = 0.9 * \<bar>e\<bar>" by (simp add: abs_mult)
  finally show ?thesis using assms(2) by linarith
qed

lemma sin_drift: "\<bar>sin a * 0.002\<bar> \<le> (0.002 :: real)"
proof -
  have "\<bar>sin a * 0.002\<bar> = \<bar>sin a\<bar> * 0.002" by (simp add: abs_mult)
  also have "\<dots> \<le> 1 * 0.002" by (rule mult_right_mono) simp_all
  finally show ?thesis by simp
qed

lemma cos_drift: "\<bar>cos a * 0.002\<bar> \<le> (0.002 :: real)"
proof -
  have "\<bar>cos a * 0.002\<bar> = \<bar>cos a\<bar> * 0.002" by (simp add: abs_mult)
  also have "\<dots> \<le> 1 * 0.002" by (rule mult_right_mono) simp_all
  finally show ?thesis by simp
qed

lemma geometric_bound:
  fixes e0 e1 eN :: real
  assumes "\<bar>e1\<bar> \<le> 0.9 * \<bar>e0\<bar> + 0.002"
      and "\<bar>eN\<bar> \<le> 0.9 ^ n * \<bar>e1\<bar> + 0.02 * (1 - 0.9 ^ n)"
  shows "\<bar>eN\<bar> \<le> 0.9 ^ Suc n * \<bar>e0\<bar> + 0.02 * (1 - 0.9 ^ Suc n)"
proof -
  have p: "(0::real) \<le> 0.9 ^ n" by simp
  have "0.9 ^ n * \<bar>e1\<bar> \<le> 0.9 ^ n * (0.9 * \<bar>e0\<bar> + 0.002)"
    using assms(1) p by (rule mult_left_mono)
  with assms(2) have "\<bar>eN\<bar> \<le> 0.9 ^ n * (0.9 * \<bar>e0\<bar> + 0.002) + 0.02 * (1 - 0.9 ^ n)"
    by linarith
  also have "\<dots> = 0.9 ^ Suc n * \<bar>e0\<bar> + 0.02 * (1 - 0.9 ^ Suc n)"
    by (simp add: algebra_simps)
  finally show ?thesis .
qed

text \<open>
  C1, amended: in steady state with no hand detected and a constant non-empty cloud, each
  frame first lerps every coordinate of particle \<open>i\<close> at rate 0.1 towards the point
  \<open>cloud[i mod length]\<close> scaled by 1.5, then adds the idle drift
  \<open>sin (0.5 * time + i) * 0.002\<close> to x and \<open>cos (0.3 * time + i) * 0.002\<close> to y. So after
  N such frames the offset of z from its target is exactly 0.9 ^ N times the offset before
  them (z approaches monotonically and never overshoots), while the offsets of x and y are
  at most 0.9 ^ N times those before plus 0.02 * (1 - 0.9 ^ N): x and y come to within
  0.02 of their targets, and the drift may carry them further away or past the target.
\<close>

theorem idle_convergence:
  assumes "list_all (idleTick cloud) inputs" and "cloud \<noteq> []"
      and "COUNT \<le> length (currentPositions s)" and "i < COUNT"
  shows "(\<exists>s'. runTicks s inputs = Inr s' \<and>
            length (currentPositions s') = length (currentPositions s) \<and>
            p_z (particle i s') - 1.5 * p_z (cloud ! (i mod length cloud))
              = 0.9 ^ length inputs
                  * (p_z (particle i s) - 1.5 * p_z (cloud ! (i mod length cloud))) \<and>
            \<bar>p_x (particle i s') - 1.5 * p_x (cloud ! (i mod length cloud))\<bar>
              \<le> 0.9 ^ length inputs
                    * \<bar>p_x (particle i s) - 1.5 * p_x (cloud ! (i mod length cloud))\<bar>
                  + 0.02 * (1 - 0.9 ^ length inputs) \<and>
            \<bar>p_y (particle i s') - 1.5 * p_y (cloud ! (i mod length cloud))\<bar>
              \<le> 0.9 ^ length inputs
                    * \<bar>p_y (particle i s) - 1.5 * p_y (cloud ! (i mod length cloud))\<bar>
                  + 0.02 * (1 - 0.9 ^ length inputs)) \<and>
         (\<forall>state random props. idleTick cloud (state, random, props) \<longrightarrow>
            (\<exists>s1. useFrame state random props s = Inr s1 \<and>
               p_x (particle i s1) - 1.5 * p_x (cloud ! (i mod length cloud))
                 = 0.9 * (p_x (particle i s) - 1.5 * p_x (cloud ! (i mod length cloud)))
                   + sin (elapsedTime state * 0.5 + real i) * 0.002 \<and>
               p_y (particle i s1) - 1.5 * p_y (cloud ! (i mod length cloud))
                 = 0.9 * (p_y (particle i s) - 1.5 * p_y (cloud ! (i mod length cloud)))
                   + cos (elapsedTime state * 0.3 + real i) * 0.002 \<and>
               p_z (particle i s1) - 1.5 * p_z (cloud ! (i mod length cloud))
                 = 0.9 * (p_z (particle i s) - 1.5 * p_z (cloud ! (i mod length cloud)))))"
proof -
  let ?t = "cloud ! (i mod length cloud)"
  have many: "\<exists>s'. runTicks s inputs = Inr s' \<and>
            length (currentPositions s') = length (currentPositions s) \<and>
            p_z (particle i s') - 1.5 * p_z ?t
              = 0.9 ^ length inputs * (p_z (particle i s) - 1.5 * p_z ?t) \<and>
            \<bar>p_x (particle i s') - 1.5 * p_x ?t\<bar>
              \<le> 0.9 ^ length inputs * \<bar>p_x (particle i s) - 1.5 * p_x ?t\<bar>
                  + 0.02 * (1 - 0.9 ^ length inputs) \<and>
            \<bar>p_y (particle i s') - 1.5 * p_y ?t\<bar>
              \<le> 0.9 ^ length inputs * \<bar>p_y (particle i s) - 1.5 * p_y ?t\<bar>
                  + 0.02 * (1 - 0.9 ^ length inputs)"
    using assms(1,3)
  proof (induction inputs arbitrary: s)
    case Nil
    then show ?case by simp
  next
    case (Cons input inputs)
    obtain state random props where input: "input = (state, random, props)"
      by (cases input)
    from Cons.prems(1) have idle: "idleTick cloud (state, random, props)"
      and rest: "list_all (idleTick cloud) inputs"
      by (simp_all add: input)
    from idle_tick[OF idle assms(2) Cons.prems(2) assms(4)]
    obtain s1 where s1: "useFrame state random props s = Inr s1"
      and l1: "length (currentPositions s1) = length (currentPositions s)"
      and x1: "p_x (particle i s1) - 1.5 * p_x ?t
                 = 0.9 * (p_x (particle i s) - 1.5 * p_x ?t)
                   + sin (elapsedTime state * 0.5 + real i) * 0.002"
      and y1: "p_y (particle i s1) - 1.5 * p_y ?t
                 = 0.9 * (p_y (particle i s) - 1.5 * p_y ?t)
                   + cos (elapsedTime state * 0.3 + real i) * 0.002"
      and z1: "p_z (particle i s1) - 1.5 * p_z ?t = 0.9 * (p_z (particle i s) - 1.5 * p_z ?t)"
      by blast
    have pool1: "COUNT \<le> length (currentPositions s1)"
      using l1 Cons.prems(2) by simp
    from Cons.IH[OF rest pool1]
    obtain s' where s': "runTicks s1 inputs = Inr s'"
      and l': "length (currentPositions s') = length (currentPositions s1)"
      and z': "p_z (particle i s') - 1.5 * p_z ?t
                 = 0.9 ^ length inputs * (p_z (particle i s1) - 1.5 * p_z ?t)"
      and x': "\<bar>p_x (particle i s') - 1.5 * p_x ?t\<bar>
                 \<le> 0.9 ^ length inputs * \<bar>p_x (particle i s1) - 1.5 * p_x ?t\<bar>
                     + 0.02 * (1 - 0.9 ^ length inputs)"
      and y': "\<bar>p_y (particle i s') - 1.5 * p_y ?t\<bar>
                 \<le> 0.9 ^ length inputs * \<bar>p_y (particle i s1) - 1.5 * p_y ?t\<bar>
                     + 0.02 * (1 - 0.9 ^ length inputs)"
      by blast
    have run: "runTicks s (input # inputs) = Inr s'"
      by (simp add: input s1 s')
    have len: "length (currentPositions s') = length (currentPositions s)"
      using l' l1 by simp
    have z: "p_z (particle i s') - 1.5 * p_z ?t
               = 0.9 ^ length (input # inputs) * (p_z (particle i s) - 1.5 * p_z ?t)"
      unfolding z' z1 by simp
    have x: "\<bar>p_x (particle i s') - 1.5 * p_x ?t\<bar>
               \<le> 0.9 ^ length (input # inputs) * \<bar>p_x (particle i s) - 1.5 * p_x ?t\<bar>
                   + 0.02 * (1 - 0.9 ^ length (input # inputs))"
      using geometric_bound[OF drift_bound[OF x1 sin_drift] x'] by simp
    have y: "\<bar>p_y (particle i s') - 1.5 * p_y ?t\<bar>
               \<le> 0.9 ^ length (input # inputs) * \<bar>p_y (particle i s) - 1.5 * p_y ?t\<bar>
                   + 0.02 * (1 - 0.9 ^ length (input # inputs))"
      using geometric_bound[OF drift_bound[OF y1 cos_drift] y'] by simp
    show ?case
      using run len z x y by blast
  qed
  have one: "\<forall>state random props. idleTick cloud (state, random, props) \<longrightarrow>
            (\<exists>s1. useFrame state random props s = Inr s1 \<and>
               p_x (particle i s1) - 1.5 * p_x ?t
                 = 0.9 * (p_x (particle i s) - 1.5 * p_x ?t)
                   + sin (elapsedTime state * 0.5 + real i) * 0.002 \<and>
               p_y (particle i s1) - 1.5 * p_y ?t
                 = 0.9 * (p_y (particle i s) - 1.5 * p_y ?t)
                   + cos (elapsedTime state * 0.3 + real i) * 0.002 \<and>
               p_z (particle i s1) - 1.5 * p_z ?t
                 = 0.9 * (p_z (particle i s) - 1.5 * p_z ?t))"
  proof (intro allI impI)
    fix state random props
    assume "idleTick cloud (state, random, props)"
    from idle_tick[OF this assms(2,3,4)]
    show "\<exists>s1. useFrame state random props s = Inr s1 \<and>
               p_x (particle i s1) - 1.5 * p_x ?t
                 = 0.9 * (p_x (particle i s) - 1.5 * p_x ?t)
                   + sin (elapsedTime state * 0.5 + real i) * 0.002 \<and>
               p_y (particle i s1) - 1.5 * p_y ?t
                 = 0.9 * (p_y (particle i s) - 1.5 * p_y ?t)
                   + cos (elapsedTime state * 0.3 + real i) * 0.002 \<and>
               p_z (particle i s1) - 1.5 * p_z ?t
                 = 0.9 * (p_z (particle i s) - 1.5 * p_z ?t)"
      by blast
  qed
  show ?thesis
    using many one by (rule conjI)
qed

text \<open>
  The amended claim on two frames towards the cloud of the single point (2, 2, 2), from a
  pool at the origin: z goes to 3 - 0.81 * 3.
\<close>

theorem idle_convergence_witness:
  "list_all (idleTick (targetPoints cornerProps)) (replicate 2 (state0, random0, cornerProps)) \<and>
   targetPoints cornerProps \<noteq> [] \<and>
   COUNT \<le> length (currentPositions placedAnimator) \<and> (7::nat) < COUNT \<and>
   p_z (particle 7 placedAnimator) = 0 \<and>
   (\<exists>s'. runTicks placedAnimator (replicate 2 (state0, random0, cornerProps)) = Inr s' \<and>
      p_z (particle 7 s') = 0.57)"
proof -
  have idle: "idleTick (targetPoints cornerProps) (state0, random0, cornerProps)"
    by (simp add: idleTick_def cornerProps_def noHand_def)
  then have all: "list_all (idleTick (targetPoints cornerProps))
                    (replicate 2 (state0, random0, cornerProps))"
    by (simp add: list_all_iff)
  have ne: "targetPoints cornerProps \<noteq> []"
    by (simp add: cornerProps_def)
  have pool: "COUNT \<le> length (currentPositions placedAnimator)"
    by (simp add: placedAnimator_def initPool_length)
  have i: "(7::nat) < COUNT"
    by (simp add: COUNT_def)
  have z0: "p_z (particle 7 placedAnimator) = 0"
    by (simp add: particle_def placedAnimator_def initPool_def COUNT_def random0_def)
  have t: "p_z (targetPoints cornerProps ! (7 mod length (targetPoints cornerProps))) = 2"
    by (simp add: cornerProps_def)
  from idle_convergence[OF all ne pool i]
  obtain s' where "runTicks placedAnimator (replicate 2 (state0, random0, cornerProps)) = Inr s'"
    and "p_z (particle 7 s')
           - 1.5 * p_z (targetPoints cornerProps ! (7 mod length (targetPoints cornerProps)))
         = 0.9 ^ length (replicate 2 (state0, random0, cornerProps))
             * (p_z (particle 7 placedAnimator)
                - 1.5 * p_z (targetPoints cornerProps
                               ! (7 mod length (targetPoints cornerProps))))"
    by blast
  then have "runTicks placedAnimator (replicate 2 (state0, random0, cornerProps)) = Inr s'
             \<and> p_z (particle 7 s') = 0.57"
    unfolding t z0 by (simp add: power2_eq_square)
  then show ?thesis
    using all ne pool i z0 by blast
qed

text \<open>
  C1, as stated, fails: particle 0 at y = -0.001, with its target at 0, is after one frame
  at time 0 at y = 0.0011: past the target, and further from it than before.
\<close>

theorem idle_drift_counterexample:
  "\<not> isExploding driftProps \<and> \<not> isDetected (handState driftProps) \<and>
   targetPoints driftProps \<noteq> [] \<and>
   particle 0 driftAnimator = \<lparr> p_x = 0, p_y = - 0.001, p_z = 0 \<rparr> \<and>
   targetAt (targetPoints driftProps) 0 = origin \<and>
   targetScaleOf (handState driftProps) = 1.5 \<and>
   map_sum id (particle 0) (useFrame state0 random0 driftProps driftAnimator)
     = Inr \<lparr> p_x = 0, p_y = 0.0011, p_z = 0 \<rparr>"
proof -
  have ne: "\<not> isExploding driftProps"
    by (simp add: driftProps_def)
  have pool: "COUNT \<le> length (currentPositions driftAnimator)"
    by (simp add: driftAnimator_def)
  have p0: "particle 0 driftAnimator = \<lparr> p_x = 0, p_y = - 0.001, p_z = 0 \<rparr>"
    by (simp add: particle_def driftAnimator_def COUNT_def)
  have t: "targetAt (targetPoints driftProps) 0 = origin"
    by (simp add: driftProps_def targetAt_def elemAt_def)
  have sc: "targetScaleOf (handState driftProps) = 1.5"
    by (simp add: driftProps_def noHand_def targetScaleOf_def)
  have nd: "\<not> isDetected (handState driftProps)"
    by (simp add: driftProps_def noHand_def)
  have after: "map_sum id (particle 0) (useFrame state0 random0 driftProps driftAnimator)
                 = Inr (blendParticle (elapsedTime state0) random0 (targetPoints driftProps)
                          (handState driftProps) 0 (particle 0 driftAnimator))"
    using pool
    by (simp add: useFrame_steady[OF ne pool] particle_def applyBody_nth COUNT_def)
  have "blendParticle (elapsedTime state0) random0 (targetPoints driftProps)
          (handState driftProps) 0 (particle 0 driftAnimator)
        = \<lparr> p_x = 0, p_y = 0.0011, p_z = 0 \<rparr>"
    unfolding blendParticle_idle[OF nd] t p0
    by (simp add: origin_def lerp_def state0_def)
  with after p0 t sc ne nd show ?thesis
    by (simp add: driftProps_def)
qed

end
